theory Spec2Isabelle
  imports Main
begin

section \<open>The intermediate representation\<close>

text \<open>
  The passes work on an LLVM module through the LLVM C++ interface. The model keeps the
  part of a module the passes read or write. Objects the source holds by pointer
  (functions, global variables, instructions, basic blocks) carry a handle, a natural
  number standing for the address of the object; a fresh object takes the next handle of
  the module. Uniqued constants are compared by structure, as LLVM compares them by
  address. Pointers are opaque (one pointer type), as the comments of
  \<^verbatim>\<open>makeConstructor\<close> print them. Local value names (\<^verbatim>\<open>"pad"\<close>,
  \<^verbatim>\<open>"fconst.load"\<close>) are not kept. A global value is created under the name the
  source asks for.
\<close>

datatype Platform = x86_64 | x86_32 | PowerPC | INVALID

datatype LinkageTypes =
    ExternalLinkage | LinkOnceODRLinkage | AppendingLinkage
  | InternalLinkage | PrivateLinkage | OtherLinkage nat

datatype Attribute = StackProtect | StackProtectReq | NonLazyBind | OtherAttribute nat

datatype ty =
    VoidTy | IntegerTy nat | FloatTy | DoubleTy | PointerTy
  | FunctionTy ty "ty list"
  | StructTy "ty list"
  | NamedStructTy string "ty list"
  | ArrayTy ty nat

datatype ExprOp =
    BitCastExpr | TruncExpr | ZExtExpr | PtrToIntExpr | GetElementPtrExpr ty bool | OtherExpr nat

datatype Constant =
    Function nat
  | GlobalVariable nat
  | ConstantInt nat nat
  | ConstantFP ty nat
  | ConstantPointerNull
  | UndefValue ty
  | ConstantExpr ExprOp ty "Constant list"
  | ConstantStruct ty "Constant list"
  | ConstantArray ty "Constant list"

datatype Value = Const Constant | Inst nat | Argument nat | Block nat

datatype Opcode =
    Ret | Br | Switch | IndirectBr | Invoke | Resume | Unreachable
  | Call | PHI | Load | Store | Mul bool | Sub | ZExt | BitCast | PtrToInt | IntToPtr
  | FPToUI | FPToSI | UIToFP | SIToFP | FPTrunc | OtherOp nat

record Instruction =
  inst_id :: nat
  inst_op :: Opcode
  inst_ty :: ty
  inst_operands :: "Value list"
  inst_incoming :: "nat list"

record BasicBlock =
  bb_id :: nat
  bb_insts :: "Instruction list"

record Func =
  fn_id :: nat
  fn_name :: string
  fn_type :: ty
  fn_linkage :: LinkageTypes
  fn_align :: nat
  fn_attrs :: "Attribute list"
  fn_blocks :: "BasicBlock list"

record GlobalVar =
  gv_id :: nat
  gv_name :: string
  gv_type :: ty
  gv_constant :: bool
  gv_linkage :: LinkageTypes
  gv_init :: "Constant option"

record Module =
  target_triple :: string
  pointer_size :: nat
  function_list :: "Func list"
  global_list :: "GlobalVar list"
  next_handle :: nat

text \<open>The three command-line options.\<close>

record Options =
  stabilize_heap :: bool
  stabilize_stack :: bool
  stabilize_code :: bool

subsection \<open>Reading a module\<close>

definition getFunction :: "Module \<Rightarrow> string \<Rightarrow> nat option" where
  "getFunction m n = map_option fn_id (find (\<lambda>f. fn_name f = n) (function_list m))"

definition lookupFunction :: "Module \<Rightarrow> nat \<Rightarrow> Func option" where
  "lookupFunction m h = find (\<lambda>f. fn_id f = h) (function_list m)"

definition getName :: "Module \<Rightarrow> nat \<Rightarrow> string" where
  "getName m h = (case lookupFunction m h of Some f \<Rightarrow> fn_name f | None \<Rightarrow> [])"

definition getFunctionType :: "Module \<Rightarrow> nat \<Rightarrow> ty" where
  "getFunctionType m h = (case lookupFunction m h of Some f \<Rightarrow> fn_type f | None \<Rightarrow> VoidTy)"

definition getBlocks :: "Module \<Rightarrow> nat \<Rightarrow> BasicBlock list" where
  "getBlocks m h = (case lookupFunction m h of Some f \<Rightarrow> fn_blocks f | None \<Rightarrow> [])"

text \<open>\<^verbatim>\<open>Function::isIntrinsic\<close>: the name starts with \<^verbatim>\<open>llvm.\<close>.\<close>

definition isIntrinsicName :: "string \<Rightarrow> bool" where
  "isIntrinsicName n = (take 5 n = ''llvm.'')"

definition isIntrinsic :: "Func \<Rightarrow> bool" where
  "isIntrinsic f = isIntrinsicName (fn_name f)"

definition isDeclaration :: "Func \<Rightarrow> bool" where
  "isDeclaration f = (fn_blocks f = [])"

definition hasLocalLinkage :: "LinkageTypes \<Rightarrow> bool" where
  "hasLocalLinkage l = (l = InternalLinkage \<or> l = PrivateLinkage)"

text \<open>\<^verbatim>\<open>Module::getGlobalVariable(Name, AllowInternal)\<close>.\<close>

definition getGlobalVariable :: "Module \<Rightarrow> string \<Rightarrow> bool \<Rightarrow> GlobalVar option" where
  "getGlobalVariable m n allowInternal =
     (case find (\<lambda>g. gv_name g = n) (global_list m) of
        None \<Rightarrow> None
      | Some g \<Rightarrow> if allowInternal \<or> \<not> hasLocalLinkage (gv_linkage g) then Some g else None)"

definition returnType :: "ty \<Rightarrow> ty" where
  "returnType t = (case t of FunctionTy r ps \<Rightarrow> r | _ \<Rightarrow> VoidTy)"

fun allInsts :: "BasicBlock list \<Rightarrow> Instruction list" where
  "allInsts [] = []"
| "allInsts (b # bs) = bb_insts b @ allInsts bs"

definition getInst :: "BasicBlock list \<Rightarrow> nat \<Rightarrow> Instruction option" where
  "getInst bs i = find (\<lambda>x. inst_id x = i) (allInsts bs)"

definition isTerminator :: "Opcode \<Rightarrow> bool" where
  "isTerminator opc = (opc \<in> {Ret, Br, Switch, IndirectBr, Invoke, Resume, Unreachable})"

text \<open>\<^verbatim>\<open>BasicBlock::getTerminator\<close>: the last instruction when it is a terminator.\<close>

definition getTerminator :: "BasicBlock list \<Rightarrow> nat \<Rightarrow> nat option" where
  "getTerminator bs b =
     (case find (\<lambda>x. bb_id x = b) bs of
        None \<Rightarrow> None
      | Some blk \<Rightarrow>
          (case rev (bb_insts blk) of
             [] \<Rightarrow> None
           | t # _ \<Rightarrow> if isTerminator (inst_op t) then Some (inst_id t) else None))"

fun nextIn :: "nat \<Rightarrow> Instruction list \<Rightarrow> nat option" where
  "nextIn i [] = None"
| "nextIn i [x] = None"
| "nextIn i (x # y # xs) = (if inst_id x = i then Some (inst_id y) else nextIn i (y # xs))"

text \<open>\<^verbatim>\<open>Instruction::getNextNode\<close>: none after the last instruction of a block.\<close>

fun getNextNode :: "BasicBlock list \<Rightarrow> nat \<Rightarrow> nat option" where
  "getNextNode [] i = None"
| "getNextNode (b # bs) i =
     (if i \<in> set (map inst_id (bb_insts b)) then nextIn i (bb_insts b) else getNextNode bs i)"

subsection \<open>Writing a module\<close>

definition updateFunction :: "nat \<Rightarrow> (Func \<Rightarrow> Func) \<Rightarrow> Module \<Rightarrow> Module" where
  "updateFunction h g m =
     m\<lparr>function_list := map (\<lambda>f. if fn_id f = h then g f else f) (function_list m)\<rparr>"

definition updateBlocks :: "nat \<Rightarrow> (BasicBlock list \<Rightarrow> BasicBlock list) \<Rightarrow> Module \<Rightarrow> Module" where
  "updateBlocks h g m = updateFunction h (\<lambda>f. f\<lparr>fn_blocks := g (fn_blocks f)\<rparr>) m"

definition newFunc :: "nat \<Rightarrow> ty \<Rightarrow> LinkageTypes \<Rightarrow> string \<Rightarrow> Func" where
  "newFunc h t l n =
     \<lparr>fn_id = h, fn_name = n, fn_type = t, fn_linkage = l, fn_align = 0,
      fn_attrs = [], fn_blocks = []\<rparr>"

text \<open>\<^verbatim>\<open>Function::Create(Ty, Linkage, Name, &M)\<close> appends to the function list.\<close>

definition Function_Create :: "ty \<Rightarrow> LinkageTypes \<Rightarrow> string \<Rightarrow> Module \<Rightarrow> nat \<times> Module" where
  "Function_Create t l n m =
     (next_handle m,
      m\<lparr>function_list := function_list m @ [newFunc (next_handle m) t l n],
        next_handle := Suc (next_handle m)\<rparr>)"

text \<open>\<^verbatim>\<open>new GlobalVariable(M, Ty, isConstant, Linkage, Initializer, Name)\<close>.\<close>

definition GlobalVariable_new ::
  "ty \<Rightarrow> bool \<Rightarrow> LinkageTypes \<Rightarrow> Constant \<Rightarrow> string \<Rightarrow> Module \<Rightarrow> nat \<times> Module" where
  "GlobalVariable_new t c l i n m =
     (next_handle m,
      m\<lparr>global_list := global_list m @
           [\<lparr>gv_id = next_handle m, gv_name = n, gv_type = t, gv_constant = c,
             gv_linkage = l, gv_init = Some i\<rparr>],
        next_handle := Suc (next_handle m)\<rparr>)"

text \<open>\<^verbatim>\<open>BasicBlock::Create(Context, "", F)\<close> appends an empty block to the function.\<close>

definition BasicBlock_Create :: "nat \<Rightarrow> Module \<Rightarrow> nat \<times> Module" where
  "BasicBlock_Create h m =
     (next_handle m,
      (updateBlocks h (\<lambda>bs. bs @ [\<lparr>bb_id = next_handle m, bb_insts = []\<rparr>]) m)
        \<lparr>next_handle := Suc (next_handle m)\<rparr>)"

fun insertIn :: "nat \<Rightarrow> Instruction \<Rightarrow> Instruction list \<Rightarrow> Instruction list" where
  "insertIn i n [] = []"
| "insertIn i n (x # xs) = (if inst_id x = i then n # x # xs else x # insertIn i n xs)"

text \<open>
  An instruction built with an insertion point goes before it; built with a null
  insertion point it belongs to no block.
\<close>

definition insertBefore :: "nat option \<Rightarrow> Instruction \<Rightarrow> BasicBlock list \<Rightarrow> BasicBlock list" where
  "insertBefore p n bs =
     (case p of
        None \<Rightarrow> bs
      | Some i \<Rightarrow> map (\<lambda>b. b\<lparr>bb_insts := insertIn i n (bb_insts b)\<rparr>) bs)"

definition insertAtEnd :: "nat \<Rightarrow> Instruction \<Rightarrow> BasicBlock list \<Rightarrow> BasicBlock list" where
  "insertAtEnd b n bs = map (\<lambda>x. if bb_id x = b then x\<lparr>bb_insts := bb_insts x @ [n]\<rparr> else x) bs"

definition mapInsts :: "(Instruction \<Rightarrow> Instruction) \<Rightarrow> BasicBlock list \<Rightarrow> BasicBlock list" where
  "mapInsts g bs = map (\<lambda>b. b\<lparr>bb_insts := map g (bb_insts b)\<rparr>) bs"

text \<open>\<^verbatim>\<open>Use::set\<close> on operand \<open>k\<close> of instruction \<open>i\<close>.\<close>

definition setOperand :: "nat \<Rightarrow> nat \<Rightarrow> Value \<Rightarrow> BasicBlock list \<Rightarrow> BasicBlock list" where
  "setOperand i k v bs =
     mapInsts (\<lambda>x. if inst_id x = i then x\<lparr>inst_operands := (inst_operands x)[k := v]\<rparr> else x) bs"

definition eraseFromParent :: "nat \<Rightarrow> BasicBlock list \<Rightarrow> BasicBlock list" where
  "eraseFromParent i bs = map (\<lambda>b. b\<lparr>bb_insts := filter (\<lambda>x. inst_id x \<noteq> i) (bb_insts b)\<rparr>) bs"

text \<open>\<^verbatim>\<open>replaceAllUsesWith\<close> on an instruction: its uses are operands in its function.\<close>

definition replaceInstUses :: "nat \<Rightarrow> Value \<Rightarrow> BasicBlock list \<Rightarrow> BasicBlock list" where
  "replaceInstUses i v bs =
     mapInsts (\<lambda>x. x\<lparr>inst_operands := map (\<lambda>w. if w = Inst i then v else w) (inst_operands x)\<rparr>) bs"

text \<open>
  \<^verbatim>\<open>replaceAllUsesWith\<close> on a function: every constant that holds it is rebuilt, in the
  operands of all instructions and in the initializers of all global variables.
\<close>

fun substConstant :: "Constant \<Rightarrow> Constant \<Rightarrow> Constant \<Rightarrow> Constant" where
  "substConstant old new (ConstantExpr e t cs) =
     (if ConstantExpr e t cs = old then new else ConstantExpr e t (map (substConstant old new) cs))"
| "substConstant old new (ConstantStruct t cs) =
     (if ConstantStruct t cs = old then new else ConstantStruct t (map (substConstant old new) cs))"
| "substConstant old new (ConstantArray t cs) =
     (if ConstantArray t cs = old then new else ConstantArray t (map (substConstant old new) cs))"
| "substConstant old new c = (if c = old then new else c)"

definition substValue :: "Constant \<Rightarrow> Constant \<Rightarrow> Value \<Rightarrow> Value" where
  "substValue old new v = (case v of Const c \<Rightarrow> Const (substConstant old new c) | _ \<Rightarrow> v)"

definition replaceAllUsesWith :: "Constant \<Rightarrow> Constant \<Rightarrow> Module \<Rightarrow> Module" where
  "replaceAllUsesWith old new m =
     m\<lparr>function_list :=
         map (\<lambda>f. f\<lparr>fn_blocks :=
                mapInsts (\<lambda>x. x\<lparr>inst_operands := map (substValue old new) (inst_operands x)\<rparr>)
                  (fn_blocks f)\<rparr>) (function_list m),
       global_list :=
         map (\<lambda>g. g\<lparr>gv_init := map_option (substConstant old new) (gv_init g)\<rparr>) (global_list m)\<rparr>"


definition setName :: "nat \<Rightarrow> string \<Rightarrow> Module \<Rightarrow> Module" where
  "setName h n m = updateFunction h (\<lambda>f. f\<lparr>fn_name := n\<rparr>) m"

definition updateGlobal :: "nat \<Rightarrow> (GlobalVar \<Rightarrow> GlobalVar) \<Rightarrow> Module \<Rightarrow> Module" where
  "updateGlobal h g m =
     m\<lparr>global_list := map (\<lambda>x. if gv_id x = h then g x else x) (global_list m)\<rparr>"

definition eraseGlobal :: "nat \<Rightarrow> Module \<Rightarrow> Module" where
  "eraseGlobal h m = m\<lparr>global_list := filter (\<lambda>x. gv_id x \<noteq> h) (global_list m)\<rparr>"

definition eraseFunction :: "nat \<Rightarrow> Module \<Rightarrow> Module" where
  "eraseFunction h m = m\<lparr>function_list := filter (\<lambda>f. fn_id f \<noteq> h) (function_list m)\<rparr>"

text \<open>A new instruction takes a fresh handle; where it goes is decided by the caller.\<close>

definition newInst :: "Opcode \<Rightarrow> ty \<Rightarrow> Value list \<Rightarrow> Module \<Rightarrow> Instruction \<times> Module" where
  "newInst opc t ops m =
     (\<lparr>inst_id = next_handle m, inst_op = opc, inst_ty = t, inst_operands = ops,
       inst_incoming = []\<rparr>,
      m\<lparr>next_handle := Suc (next_handle m)\<rparr>)"

text \<open>An instruction of function \<open>h\<close> created before instruction \<open>p\<close>.\<close>

definition createBefore ::
  "nat \<Rightarrow> nat option \<Rightarrow> Opcode \<Rightarrow> ty \<Rightarrow> Value list \<Rightarrow> Module \<Rightarrow> nat \<times> Module" where
  "createBefore h p opc t ops m =
     (let (x, m1) = newInst opc t ops m in (inst_id x, updateBlocks h (insertBefore p x) m1))"

text \<open>An instruction of function \<open>h\<close> created at the end of block \<open>b\<close>.\<close>

definition createAtEnd ::
  "nat \<Rightarrow> nat \<Rightarrow> Opcode \<Rightarrow> ty \<Rightarrow> Value list \<Rightarrow> Module \<Rightarrow> nat \<times> Module" where
  "createAtEnd h b opc t ops m =
     (let (x, m1) = newInst opc t ops m in (inst_id x, updateBlocks h (insertAtEnd b x) m1))"

text \<open>A call holds its arguments first and the callee as its last operand.\<close>

definition callOperands :: "nat \<Rightarrow> Value list \<Rightarrow> Value list" where
  "callOperands callee args = args @ [Const (Function callee)]"

definition callType :: "Module \<Rightarrow> nat \<Rightarrow> ty" where
  "callType m callee = returnType (getFunctionType m callee)"

subsection \<open>Constants and types\<close>

fun getType :: "Constant \<Rightarrow> ty" where
  "getType (Function h) = PointerTy"
| "getType (GlobalVariable h) = PointerTy"
| "getType (ConstantInt b v) = IntegerTy b"
| "getType (ConstantFP t v) = t"
| "getType ConstantPointerNull = PointerTy"
| "getType (UndefValue t) = t"
| "getType (ConstantExpr e t cs) = t"
| "getType (ConstantStruct t cs) = t"
| "getType (ConstantArray t cs) = t"

definition paramType :: "ty \<Rightarrow> nat \<Rightarrow> ty" where
  "paramType t k =
     (case t of FunctionTy r ps \<Rightarrow> if k < length ps then ps ! k else VoidTy | _ \<Rightarrow> VoidTy)"

definition valueType :: "Module \<Rightarrow> nat \<Rightarrow> Value \<Rightarrow> ty" where
  "valueType m h v =
     (case v of
        Const c \<Rightarrow> getType c
      | Inst i \<Rightarrow> (case getInst (getBlocks m h) i of Some x \<Rightarrow> inst_ty x | None \<Rightarrow> VoidTy)
      | Argument k \<Rightarrow> paramType (getFunctionType m h) k
      | Block b \<Rightarrow> VoidTy)"

text \<open>\<^verbatim>\<open>ConstantExpr::getPointerCast\<close>: a constant of the wanted type is returned as it is.\<close>

definition getPointerCast :: "Constant \<Rightarrow> ty \<Rightarrow> Constant" where
  "getPointerCast c t = (if getType c = t then c else ConstantExpr BitCastExpr t [c])"

definition getGetElementPtr :: "ty \<Rightarrow> Constant \<Rightarrow> Constant list \<Rightarrow> bool \<Rightarrow> Constant" where
  "getGetElementPtr t c idx inbounds = ConstantExpr (GetElementPtrExpr t inbounds) PointerTy (c # idx)"

text \<open>\<^verbatim>\<open>ConstantExpr::getSizeOf\<close>: the address of element 1 of a null pointer, as an \<^verbatim>\<open>i64\<close>.\<close>

definition getSizeOf :: "ty \<Rightarrow> Constant" where
  "getSizeOf t =
     ConstantExpr PtrToIntExpr (IntegerTy 64)
       [getGetElementPtr t ConstantPointerNull [ConstantInt 32 1] False]"

definition scalarBits :: "ty \<Rightarrow> nat" where
  "scalarBits t = (case t of IntegerTy n \<Rightarrow> n | FloatTy \<Rightarrow> 32 | DoubleTy \<Rightarrow> 64 | _ \<Rightarrow> 0)"

text \<open>\<^verbatim>\<open>ConstantExpr::getIntegerCast(C, Ty, false)\<close>.\<close>

definition getIntegerCast :: "Constant \<Rightarrow> ty \<Rightarrow> Constant" where
  "getIntegerCast c t =
     (if getType c = t then c
      else if scalarBits (getType c) > scalarBits t then ConstantExpr TruncExpr t [c]
      else ConstantExpr ZExtExpr t [c])"

text \<open>\<^verbatim>\<open>APInt(bits, value)\<close> keeps the low bits.\<close>

definition APInt :: "nat \<Rightarrow> nat \<Rightarrow> Constant" where
  "APInt bits v = ConstantInt bits (v mod 2 ^ bits)"

subsection \<open>Platform and type helpers\<close>

text \<open>\<^verbatim>\<open>::tolower\<close> in the C locale.\<close>

definition tolower :: "char \<Rightarrow> char" where
  "tolower c =
     (case map_of (zip ''ABCDEFGHIJKLMNOPQRSTUVWXYZ'' ''abcdefghijklmnopqrstuvwxyz'') c of
        Some l \<Rightarrow> l
      | None \<Rightarrow> c)"

text \<open>\<^verbatim>\<open>triple.find(pat) != string::npos\<close>.\<close>

fun str_find :: "string \<Rightarrow> string \<Rightarrow> bool" where
  "str_find [] pat = (pat = [])"
| "str_find (c # cs) pat = (take (length pat) (c # cs) = pat \<or> str_find cs pat)"

definition getPlatform :: "Module \<Rightarrow> Platform" where
  "getPlatform m =
     (let triple = map tolower (target_triple m) in
      if str_find triple ''x86_64'' \<or> str_find triple ''amd64'' then x86_64
      else if str_find triple ''i386'' \<or> str_find triple ''i486''
           \<or> str_find triple ''i586'' \<or> str_find triple ''i686'' then x86_32
      else if str_find triple ''powerpc'' then PowerPC
      else INVALID)"

definition getIntptrType :: "Module \<Rightarrow> ty" where
  "getIntptrType m = (if pointer_size m = 4 then IntegerTy 32 else IntegerTy 64)"

definition getIntptrSize :: "Module \<Rightarrow> nat" where
  "getIntptrSize m = (if pointer_size m = 4 then 32 else 64)"

definition getInt :: "nat \<Rightarrow> nat \<Rightarrow> Constant" where
  "getInt bits v = APInt bits v"

definition getIntptr :: "Module \<Rightarrow> nat \<Rightarrow> Constant" where
  "getIntptr m v = getInt (getIntptrSize m) v"

definition isDataPCRelative :: "Module \<Rightarrow> bool" where
  "isDataPCRelative m =
     (case getPlatform m of x86_64 \<Rightarrow> True | x86_32 \<Rightarrow> False | PowerPC \<Rightarrow> False | _ \<Rightarrow> True)"

subsection \<open>Ordered containers\<close>

text \<open>
  \<^verbatim>\<open>std::set\<close> and \<^verbatim>\<open>std::map\<close> keep their keys in increasing order; the keys of the
  source are pointers, so the order is the order of addresses. A set is a list without
  repetition in that order, a map a list of pairs ordered by their keys.
\<close>

fun set_insert :: "('a \<Rightarrow> 'a \<Rightarrow> bool) \<Rightarrow> 'a \<Rightarrow> 'a list \<Rightarrow> 'a list" where
  "set_insert lt x [] = [x]"
| "set_insert lt x (y # ys) =
     (if x = y then y # ys else if lt x y then x # y # ys else y # set_insert lt x ys)"

fun map_lookup :: "'k \<Rightarrow> ('k \<times> 'v) list \<Rightarrow> 'v option" where
  "map_lookup k [] = None"
| "map_lookup k ((a, v) # xs) = (if a = k then Some v else map_lookup k xs)"

fun map_store :: "('k \<Rightarrow> 'k \<Rightarrow> bool) \<Rightarrow> 'k \<Rightarrow> 'v \<Rightarrow> ('k \<times> 'v) list \<Rightarrow> ('k \<times> 'v) list" where
  "map_store lt k v [] = [(k, v)]"
| "map_store lt k v ((a, w) # xs) =
     (if k = a then (a, v) # xs
      else if lt k a then (k, v) # (a, w) # xs
      else (a, w) # map_store lt k v xs)"

text \<open>A use is an operand slot: the instruction and the operand's index.\<close>

type_synonym Use = "nat \<times> nat"

definition use_less :: "Use \<Rightarrow> Use \<Rightarrow> bool" where
  "use_less u w = (fst u < fst w \<or> (fst u = fst w \<and> snd u < snd w))"


subsection \<open>Printing a type\<close>

definition digit_char :: "nat \<Rightarrow> char" where
  "digit_char d = char_of (48 + d)"

function show_nat :: "nat \<Rightarrow> string" where
  "show_nat n = (if n < 10 then [digit_char n] else show_nat (n div 10) @ [digit_char (n mod 10)])"
  by pat_completeness auto
termination
  by (relation "measure id") auto

fun commas :: "string list \<Rightarrow> string" where
  "commas [] = []"
| "commas [x] = x"
| "commas (x # y # xs) = x @ '', '' @ commas (y # xs)"

text \<open>\<^verbatim>\<open>Type::print\<close>.\<close>

fun print_ty :: "ty \<Rightarrow> string" where
  "print_ty VoidTy = ''void''"
| "print_ty (IntegerTy n) = ''i'' @ show_nat n"
| "print_ty FloatTy = ''float''"
| "print_ty DoubleTy = ''double''"
| "print_ty PointerTy = ''ptr''"
| "print_ty (FunctionTy r ps) = print_ty r @ '' ('' @ commas (map print_ty ps) @ '')''"
| "print_ty (StructTy ts) = ''{ '' @ commas (map print_ty ts) @ '' }''"
| "print_ty (NamedStructTy n ts) = ''%'' @ n"
| "print_ty (ArrayTy t n) = ''['' @ show_nat n @ '' x '' @ print_ty t @ '']''"

section \<open>The Stabilizer pass\<close>

subsection \<open>Global references and floating-point literals in a constant\<close>

text \<open>\<^verbatim>\<open>StabilizerImpl::containsGlobal\<close>.\<close>

fun containsGlobal :: "Module \<Rightarrow> Constant \<Rightarrow> bool" where
  "containsGlobal m (Function h) =
     (if isIntrinsicName (getName m h) \<or> getName m h = ''__gxx_personality_v0''
      then False else True)"
| "containsGlobal m (GlobalVariable h) = True"
| "containsGlobal m (ConstantExpr e t cs) = (\<exists>c \<in> set cs. containsGlobal m c)"
| "containsGlobal m c = False"

text \<open>\<^verbatim>\<open>isa<Constant>(operand) && containsGlobal(operand)\<close>.\<close>

definition isGlobalOperand :: "Module \<Rightarrow> Value \<Rightarrow> bool" where
  "isGlobalOperand m v = (case v of Const c \<Rightarrow> containsGlobal m c | _ \<Rightarrow> False)"

text \<open>\<^verbatim>\<open>StabilizerImpl::containsConstantFloat\<close>.\<close>

fun containsConstantFloat :: "Constant \<Rightarrow> bool" where
  "containsConstantFloat (ConstantFP t v) = True"
| "containsConstantFloat (ConstantExpr e t cs) = (\<exists>c \<in> set cs. containsConstantFloat c)"
| "containsConstantFloat c = False"

subsection \<open>Heap randomization\<close>

definition replaceHeapFunction :: "nat option \<Rightarrow> string \<Rightarrow> Module \<Rightarrow> Module" where
  "replaceHeapFunction fn n m =
     (case fn of
        None \<Rightarrow> m
      | Some h \<Rightarrow>
          (let (g, m1) = Function_Create (getFunctionType m h) ExternalLinkage n m
           in replaceAllUsesWith (Function h) (Function g) m1))"

text \<open>\<^verbatim>\<open>StabilizerImpl::randomizeHeap\<close>.\<close>

definition randomizeHeap :: "Module \<Rightarrow> Module" where
  "randomizeHeap m =
     (let malloc_fn = getFunction m ''malloc'';
          calloc_fn = getFunction m ''calloc'';
          realloc_fn = getFunction m ''realloc'';
          free_fn = getFunction m ''free'';
          m1 = replaceHeapFunction malloc_fn ''stabilizer_malloc'' m;
          m2 = replaceHeapFunction calloc_fn ''stabilizer_calloc'' m1;
          m3 = replaceHeapFunction realloc_fn ''stabilizer_realloc'' m2
      in replaceHeapFunction free_fn ''stabilizer_free'' m3)"

subsection \<open>Runtime function declarations\<close>

record Runtime =
  registerFunction :: nat
  registerConstructor :: nat
  registerStackPad :: nat

definition addFnAttr :: "nat \<Rightarrow> Attribute \<Rightarrow> Module \<Rightarrow> Module" where
  "addFnAttr h a m =
     updateFunction h (\<lambda>f. f\<lparr>fn_attrs := (if a \<in> set (fn_attrs f) then fn_attrs f else fn_attrs f @ [a])\<rparr>) m"

definition removeFnAttr :: "nat \<Rightarrow> Attribute \<Rightarrow> Module \<Rightarrow> Module" where
  "removeFnAttr h a m = updateFunction h (\<lambda>f. f\<lparr>fn_attrs := filter (\<lambda>x. x \<noteq> a) (fn_attrs f)\<rparr>) m"

text \<open>\<^verbatim>\<open>StabilizerImpl::declareRuntimeFunctions\<close>.\<close>

definition declareRuntimeFunctions :: "Module \<Rightarrow> Runtime \<times> Module" where
  "declareRuntimeFunctions m =
     (let register_function_params =
            [PointerTy, PointerTy, PointerTy, IntegerTy 32, IntegerTy 1, PointerTy];
          (rf, m1) = Function_Create (FunctionTy VoidTy register_function_params) ExternalLinkage
                       ''stabilizer_register_function'' m;
          m2 = addFnAttr rf NonLazyBind m1;
          (rc, m3) = Function_Create (FunctionTy VoidTy [PointerTy]) ExternalLinkage
                       ''stabilizer_register_constructor'' m2;
          m4 = addFnAttr rc NonLazyBind m3;
          (rs, m5) = Function_Create (FunctionTy VoidTy [PointerTy]) ExternalLinkage
                       ''stabilizer_register_stack_pad'' m4;
          m6 = addFnAttr rs NonLazyBind m5
      in (\<lparr>registerFunction = rf, registerConstructor = rc, registerStackPad = rs\<rparr>, m6))"

subsection \<open>Stack randomization\<close>

text \<open>\<^verbatim>\<open>Intrinsic::getDeclaration\<close>: the declaration of the module, created when absent.\<close>

definition Intrinsic_getDeclaration :: "string \<Rightarrow> ty \<Rightarrow> Module \<Rightarrow> nat \<times> Module" where
  "Intrinsic_getDeclaration n t m =
     (case getFunction m n of
        Some h \<Rightarrow> (h, m)
      | None \<Rightarrow> Function_Create t ExternalLinkage n m)"

text \<open>\<^verbatim>\<open>CastInst::CreateZExtOrBitCast\<close>.\<close>

definition ZExtOrBitCast :: "ty \<Rightarrow> ty \<Rightarrow> Opcode" where
  "ZExtOrBitCast src dst = (if scalarBits src = scalarBits dst then BitCast else ZExt)"

text \<open>The body of the second loop of \<^verbatim>\<open>randomizeStack\<close>, for the call-site \<open>c\<close>.\<close>

definition padCall :: "nat \<Rightarrow> nat \<Rightarrow> nat \<Rightarrow> nat \<Rightarrow> nat \<Rightarrow> Module \<Rightarrow> Module" where
  "padCall f stackPad stacksave stackrestore c m =
     (let next = getNextNode (getBlocks m f) c;
          (pad, m1) = createBefore f (Some c) Load (IntegerTy 8)
                        [Const (GlobalVariable stackPad)] m;
          (wide_pad, m2) = createBefore f (Some c)
                        (ZExtOrBitCast (IntegerTy 8) (getIntptrType m)) (getIntptrType m)
                        [Inst pad] m1;
          (padSize, m3) = createBefore f (Some c) (Mul True) (getIntptrType m)
                        [Inst wide_pad, Const (getIntptr m 16)] m2;
          (oldStack, m4) = createBefore f (Some c) Call (callType m3 stacksave)
                        (callOperands stacksave []) m3;
          (oldStackInt, m5) = createBefore f (Some c) PtrToInt (getIntptrType m)
                        [Inst oldStack] m4;
          (newStackInt, m6) = createBefore f (Some c) Sub (getIntptrType m)
                        [Inst oldStackInt, Inst padSize] m5;
          (newStack, m7) = createBefore f (Some c) IntToPtr PointerTy [Inst newStackInt] m6;
          (r1, m8) = createBefore f (Some c) Call (callType m7 stackrestore)
                        (callOperands stackrestore [Inst newStack]) m7;
          (r2, m9) = createBefore f next Call (callType m8 stackrestore)
                        (callOperands stackrestore [Inst oldStack]) m8
      in m9)"

text \<open>\<^verbatim>\<open>StabilizerImpl::randomizeStack\<close>.\<close>

definition randomizeStack :: "nat \<Rightarrow> nat \<Rightarrow> Module \<Rightarrow> Module" where
  "randomizeStack f stackPad m =
     (let (stacksave, m1) = Intrinsic_getDeclaration ''llvm.stacksave'' (FunctionTy PointerTy []) m;
          (stackrestore, m2) =
             Intrinsic_getDeclaration ''llvm.stackrestore'' (FunctionTy VoidTy [PointerTy]) m1;
          calls = map inst_id (filter (\<lambda>i. inst_op i = Call) (allInsts (getBlocks m2 f)))
      in fold (padCall f stackPad stacksave stackrestore) calls m2)"


subsection \<open>Float conversions\<close>

text \<open>The name prefix chosen by \<^verbatim>\<open>getFloatConversion\<close>; no name is the call of \<^verbatim>\<open>abort\<close>.\<close>

definition conversionName :: "Opcode \<Rightarrow> string option" where
  "conversionName opc =
     (if opc = FPToUI then Some ''fptoui''
      else if opc = FPToSI then Some ''fptosi''
      else if opc = UIToFP then Some ''uitofp''
      else if opc = SIToFP then Some ''sitofp''
      else if opc = FPTrunc then Some ''fptrunc''
      else None)"

text \<open>\<^verbatim>\<open>StabilizerImpl::getFloatConversion\<close>; \<open>None\<close> is the abort on an invalid opcode.\<close>

definition getFloatConversion :: "Opcode \<Rightarrow> ty \<Rightarrow> ty \<Rightarrow> Module \<Rightarrow> (nat \<times> Module) option" where
  "getFloatConversion opc in_ty out_ty m =
     (case conversionName opc of
        None \<Rightarrow> None
      | Some s \<Rightarrow>
          (let name = s @ ''.'' @ print_ty in_ty @ ''.'' @ print_ty out_ty in
           case getFunction m name of
             Some f \<Rightarrow> Some (f, m)
           | None \<Rightarrow>
               (let (f, m1) = Function_Create (FunctionTy out_ty [in_ty]) InternalLinkage name m;
                    (b, m2) = BasicBlock_Create f m1;
                    (r, m3) = createAtEnd f b opc out_ty [Argument 0] m2;
                    (t, m4) = createAtEnd f b Ret VoidTy [Inst r] m3
                in Some (f, m4))))"

definition isConversion :: "Module \<Rightarrow> Opcode \<Rightarrow> bool" where
  "isConversion m opc =
     (opc = FPToSI \<or> opc = FPToUI \<or> opc = SIToFP \<or> opc = UIToFP
      \<or> (opc = FPTrunc \<and> getPlatform m = PowerPC))"

definition getOperand :: "Instruction \<Rightarrow> nat \<Rightarrow> Value" where
  "getOperand i k = inst_operands i ! k"

text \<open>\<^verbatim>\<open>PHINode::getIncomingBlock\<close> of operand \<open>k\<close>, then \<^verbatim>\<open>getTerminator\<close> of that block.\<close>

definition incomingTerminator :: "BasicBlock list \<Rightarrow> Instruction \<Rightarrow> nat \<Rightarrow> nat option" where
  "incomingTerminator bs phi k =
     (if k < length (inst_incoming phi) then getTerminator bs (inst_incoming phi ! k) else None)"

fun foldM :: "('a \<Rightarrow> 's \<Rightarrow> 's option) \<Rightarrow> 'a list \<Rightarrow> 's \<Rightarrow> 's option" where
  "foldM g [] s = Some s"
| "foldM g (x # xs) s = (case g x s of None \<Rightarrow> None | Some s' \<Rightarrow> foldM g xs s')"

text \<open>The inner loop of \<^verbatim>\<open>extractFloatOperations\<close> over the operands of instruction \<open>i\<close>.\<close>

definition extractOperand :: "nat \<Rightarrow> Instruction \<Rightarrow> nat \<times> Value \<Rightarrow> Module \<Rightarrow> Module" where
  "extractOperand f i kop m =
     (case snd kop of
        Const c \<Rightarrow>
          if containsConstantFloat c then
            (let t = getType c;
                 (g, m1) = GlobalVariable_new t True InternalLinkage c ''fconst'' m;
                 insertion_point =
                   (if inst_op i = PHI then incomingTerminator (getBlocks m1 f) i (fst kop)
                    else Some (inst_id i));
                 (load, m2) = createBefore f insertion_point Load t [Const (GlobalVariable g)] m1
             in updateBlocks f (setOperand (inst_id i) (fst kop) (Inst load)) m2)
          else m
      | _ \<Rightarrow> m)"

text \<open>The body of the first loop of \<^verbatim>\<open>extractFloatOperations\<close>, at instruction \<open>iid\<close>.\<close>

definition extractInst :: "nat \<Rightarrow> nat \<Rightarrow> Module \<times> nat list \<Rightarrow> (Module \<times> nat list) option" where
  "extractInst f iid st =
     (let m = fst st; to_delete = snd st in
      case getInst (getBlocks m f) iid of
        None \<Rightarrow> Some st
      | Some i \<Rightarrow>
          if isConversion m (inst_op i) then
            (case getFloatConversion (inst_op i) (valueType m f (getOperand i 0)) (inst_ty i) m of
               None \<Rightarrow> None
             | Some (g, m1) \<Rightarrow>
                 (let (ci, m2) = createBefore f (Some iid) Call (callType m1 g)
                                   (callOperands g [getOperand i 0]) m1;
                      m3 = updateBlocks f (replaceInstUses iid (Inst ci)) m2
                  in Some (m3, to_delete @ [iid])))
          else Some (fold (extractOperand f i) (enumerate 0 (inst_operands i)) m, to_delete))"

text \<open>
  \<^verbatim>\<open>StabilizerImpl::extractFloatOperations\<close>. The scan runs over the instructions the
  function has when it starts: a call is inserted before the instruction being visited,
  and a load inserted ahead of the scan has a global variable as its only operand, which
  takes neither branch with effect.
\<close>

definition extractFloatOperations :: "nat \<Rightarrow> Module \<Rightarrow> Module option" where
  "extractFloatOperations f m =
     (case foldM (extractInst f) (map inst_id (allInsts (getBlocks m f))) (m, []) of
        None \<Rightarrow> None
      | Some (m1, to_delete) \<Rightarrow>
          Some (fold (\<lambda>i. updateBlocks f (eraseFromParent i)) to_delete m1))"

subsection \<open>Collecting the uses of globals\<close>

type_synonym References = "(Constant \<times> Use list) list"

text \<open>
  The map of \<^verbatim>\<open>findPCRelativeUsesIn\<close> is keyed by \<^verbatim>\<open>Constant*\<close>: \<open>addr\<close> gives
  the address of a constant.
\<close>

definition recordUse :: "(Constant \<Rightarrow> nat) \<Rightarrow> Constant \<Rightarrow> Use \<Rightarrow> References \<Rightarrow> References" where
  "recordUse addr c u result =
     (case map_lookup c result of
        None \<Rightarrow> map_store (\<lambda>a b. addr a < addr b) c [u] result
      | Some us \<Rightarrow> map_store (\<lambda>a b. addr a < addr b) c (set_insert use_less u us) result)"

definition recordOperand ::
  "(Constant \<Rightarrow> nat) \<Rightarrow> Module \<Rightarrow> Instruction \<Rightarrow> nat \<times> Value \<Rightarrow> References \<Rightarrow> References" where
  "recordOperand addr m i kop result =
     (case snd kop of
        Const c \<Rightarrow> if containsGlobal m c then recordUse addr c (inst_id i, fst kop) result else result
      | _ \<Rightarrow> result)"

definition recordInst ::
  "(Constant \<Rightarrow> nat) \<Rightarrow> Module \<Rightarrow> Instruction \<Rightarrow> References \<Rightarrow> References" where
  "recordInst addr m i result =
     (if inst_op i = PHI then
        fold (\<lambda>index. recordOperand addr m i (index, getOperand i index))
          [0..<length (inst_operands i)] result
      else fold (recordOperand addr m i) (enumerate 0 (inst_operands i)) result)"

text \<open>\<^verbatim>\<open>StabilizerImpl::findPCRelativeUsesIn\<close>.\<close>

definition findPCRelativeUsesIn :: "(Constant \<Rightarrow> nat) \<Rightarrow> Module \<Rightarrow> nat \<Rightarrow> References" where
  "findPCRelativeUsesIn addr m f = fold (recordInst addr m) (allInsts (getBlocks m f)) []"

subsection \<open>Code randomization\<close>

definition ALIGN :: nat where
  "ALIGN = 64"

fun insertAfter :: "nat \<Rightarrow> Func \<Rightarrow> Func list \<Rightarrow> Func list" where
  "insertAfter f n [] = []"
| "insertAfter f n (x # xs) = (if fn_id x = f then x # n # xs else x # insertAfter f n xs)"

text \<open>
  The first lines of \<^verbatim>\<open>randomizeCode\<close>: the dummy function is built outside the
  module, aligned, given a block with a return, and put after \<open>f\<close>.
\<close>

definition createDummy :: "nat \<Rightarrow> Module \<Rightarrow> nat \<times> Module" where
  "createDummy f m =
     (let h = next_handle m;
          next0 = newFunc h (FunctionTy VoidTy []) InternalLinkage (''stabilizer.dummy.'' @ getName m f);
          next1 = next0\<lparr>fn_align := ALIGN\<rparr>;
          ret = \<lparr>inst_id = h + 2, inst_op = Ret, inst_ty = VoidTy, inst_operands = [],
                 inst_incoming = []\<rparr>;
          next2 = next1\<lparr>fn_blocks := [\<lparr>bb_id = h + 1, bb_insts = [ret]\<rparr>]\<rparr>
      in (h, m\<lparr>function_list := insertAfter f next2 (function_list m), next_handle := h + 3\<rparr>))"

text \<open>The body of the rewriting loop of \<^verbatim>\<open>randomizeCode\<close>, for the use \<open>u\<close>.\<close>

definition rewriteUse :: "nat \<Rightarrow> ty \<Rightarrow> Constant \<Rightarrow> nat \<Rightarrow> Use \<Rightarrow> Module \<Rightarrow> Module" where
  "rewriteUse f relocationTableType actualRelocationTable index u m =
     (case getInst (getBlocks m f) (fst u) of
        None \<Rightarrow> m
      | Some user \<Rightarrow>
          (let insertion_point =
                 (if inst_op user = PHI then incomingTerminator (getBlocks m f) user (snd u)
                  else Some (inst_id user));
               indices = [APInt 32 0, APInt 32 index];
               slot = getGetElementPtr relocationTableType actualRelocationTable indices True;
               (loaded, m1) = createBefore f insertion_point Load (getType slot) [Const slot] m
           in updateBlocks f (setOperand (fst u) (snd u) (Inst loaded)) m1))"

definition usesOf :: "References \<Rightarrow> Constant \<Rightarrow> Use list" where
  "usesOf references c = (case map_lookup c references of Some us \<Rightarrow> us | None \<Rightarrow> [])"

definition rewriteConstant ::
  "nat \<Rightarrow> ty \<Rightarrow> Constant \<Rightarrow> References \<Rightarrow> Constant \<Rightarrow> nat \<times> Module \<Rightarrow> nat \<times> Module" where
  "rewriteConstant f relocationTableType actualRelocationTable references c st =
     (Suc (fst st),
      fold (rewriteUse f relocationTableType actualRelocationTable (fst st))
        (usesOf references c) (snd st))"

text \<open>
  The rewriting loop of \<^verbatim>\<open>randomizeCode\<close> over \<^verbatim>\<open>referencedValues\<close>, with its
  counter \<^verbatim>\<open>index\<close>.
\<close>

definition rewriteUses ::
  "nat \<Rightarrow> ty \<Rightarrow> Constant \<Rightarrow> References \<Rightarrow> Constant list \<Rightarrow> Module \<Rightarrow> Module" where
  "rewriteUses f relocationTableType actualRelocationTable references referencedValues m =
     snd (fold (rewriteConstant f relocationTableType actualRelocationTable references)
            referencedValues (0, m))"

text \<open>
  \<^verbatim>\<open>StabilizerImpl::randomizeCode\<close> up to the call of
  \<^verbatim>\<open>extractFloatOperations\<close>: the dummy function, the attributes, the linkage and the
  float operations. \<open>None\<close> is the abort of \<^verbatim>\<open>getFloatConversion\<close>.
\<close>

definition prepareCode :: "nat \<Rightarrow> Module \<Rightarrow> (nat \<times> Module) option" where
  "prepareCode f m =
     (let (next, m1) = createDummy f m;
          m2 = removeFnAttr f StackProtectReq (removeFnAttr f StackProtect m1);
          m3 = updateFunction f
                 (\<lambda>x. if fn_linkage x = LinkOnceODRLinkage then x\<lparr>fn_linkage := ExternalLinkage\<rparr> else x) m2
      in case extractFloatOperations f m3 of
           None \<Rightarrow> None
         | Some m4 \<Rightarrow> Some (next, m4))"

text \<open>
  The rest of \<^verbatim>\<open>randomizeCode\<close>, from the call of \<^verbatim>\<open>findPCRelativeUsesIn\<close>:
  the relocation table, the rewriting of the uses, and the arguments returned.
\<close>

definition rewriteCode :: "(Constant \<Rightarrow> nat) \<Rightarrow> nat \<Rightarrow> nat \<Rightarrow> Module \<Rightarrow> Value list \<times> Module" where
  "rewriteCode addr f next m4 =
     (let references = findPCRelativeUsesIn addr m4 f in
      if length references > 0 then
        (let referencedValues = map fst references;
             referencedTypes = map getType referencedValues;
             relocationTableType =
               NamedStructTy (getName m4 f @ ''.relocation_table_t'') referencedTypes;
             (relocationTable, m5) =
               GlobalVariable_new relocationTableType False InternalLinkage
                 (ConstantStruct relocationTableType referencedValues)
                 (getName m4 f @ ''.relocation_table'') m4;
             actualRelocationTable =
               (if isDataPCRelative m5 then getPointerCast (Function next) PointerTy
                else GlobalVariable relocationTable);
             m6 = rewriteUses f relocationTableType actualRelocationTable references
                    referencedValues m5;
             args =
               [Const (getPointerCast (Function f) PointerTy),
                Const (getPointerCast (Function next) PointerTy),
                Const (getPointerCast (GlobalVariable relocationTable) PointerTy),
                Const (getIntegerCast (getSizeOf relocationTableType) (IntegerTy 32)),
                Const (APInt 1 (if isDataPCRelative m6 then 1 else 0))]
         in (args, m6))
      else
        (let args =
               [Const (getPointerCast (Function f) PointerTy),
                Const (getPointerCast (Function next) PointerTy),
                Const ConstantPointerNull,
                Const (APInt 32 0),
                Const (APInt 1 0)]
         in (args, m4)))"

text \<open>\<^verbatim>\<open>StabilizerImpl::randomizeCode\<close>.\<close>

definition randomizeCode :: "(Constant \<Rightarrow> nat) \<Rightarrow> nat \<Rightarrow> Module \<Rightarrow> (Value list \<times> Module) option" where
  "randomizeCode addr f m =
     (case prepareCode f m of
        None \<Rightarrow> None
      | Some (next, m4) \<Rightarrow> Some (rewriteCode addr f next m4))"

subsection \<open>Module constructors\<close>

text \<open>
  The function field of a constructor-table entry, \<^verbatim>\<open>entry->getOperand(1)\<close>. The
  source reads it from any entry; an entry that is not a structure of at least two fields
  does not occur in a module LLVM accepts, and yields an undefined value here.
\<close>

definition entryFunction :: "Constant \<Rightarrow> Constant" where
  "entryFunction e = (case e of ConstantStruct t (p # f # rest) \<Rightarrow> f | _ \<Rightarrow> UndefValue VoidTy)"

text \<open>\<^verbatim>\<open>StabilizerImpl::getConstructors\<close>.\<close>

definition getConstructors :: "Module \<Rightarrow> Constant list" where
  "getConstructors m =
     (case getGlobalVariable m ''llvm.global_ctors'' False of
        None \<Rightarrow> []
      | Some ctors \<Rightarrow>
          (case gv_init ctors of
             Some (ConstantArray t entries) \<Rightarrow> map entryFunction entries
           | _ \<Rightarrow> []))"

text \<open>\<^verbatim>\<open>StabilizerImpl::makeConstructor\<close>.\<close>

definition makeConstructor :: "string \<Rightarrow> Module \<Rightarrow> nat \<times> Module" where
  "makeConstructor name m =
     (let ctor_fn_t = FunctionTy VoidTy [];
          ctor_entry_t = StructTy [IntegerTy 32, PointerTy, PointerTy];
          (init, m1) = Function_Create ctor_fn_t InternalLinkage name m;
          ctor_entries =
            [ConstantStruct ctor_entry_t [ConstantInt 32 65535, Function init, ConstantPointerNull]];
          ctor_array_const =
            ConstantArray (ArrayTy ctor_entry_t (length ctor_entries)) ctor_entries;
          (new_ctors, m2) =
            GlobalVariable_new (getType ctor_array_const) True AppendingLinkage ctor_array_const [] m1
      in case getGlobalVariable m2 ''llvm.global_ctors'' False of
           Some ctors \<Rightarrow>
             (let m3 = updateGlobal new_ctors (\<lambda>g. g\<lparr>gv_name := gv_name ctors\<rparr>) m2;
                  m4 = updateGlobal (gv_id ctors) (\<lambda>g. g\<lparr>gv_name := []\<rparr>) m3;
                  m5 = updateGlobal (gv_id ctors) (\<lambda>g. g\<lparr>gv_name := ''old.llvm.global_ctors''\<rparr>) m4;
                  m6 = updateGlobal (gv_id ctors) (\<lambda>g. g\<lparr>gv_linkage := PrivateLinkage\<rparr>) m5
              in (init, eraseGlobal (gv_id ctors) m6))
         | None \<Rightarrow> (init, updateGlobal new_ctors (\<lambda>g. g\<lparr>gv_name := ''llvm.global_ctors''\<rparr>) m2))"

subsection \<open>The entry point\<close>

definition isLocalFunction :: "Func \<Rightarrow> bool" where
  "isLocalFunction f =
     (\<not> isIntrinsic f \<and> \<not> isDeclaration f \<and> fn_name f \<noteq> ''__gxx_personality_v0'')"

text \<open>The set \<^verbatim>\<open>local_functions\<close>, a \<^verbatim>\<open>std::set<Function*>\<close>.\<close>

definition localFunctions :: "Module \<Rightarrow> nat list" where
  "localFunctions m =
     fold (\<lambda>f s. if isLocalFunction f then set_insert (<) (fn_id f) s else s) (function_list m) []"

text \<open>The body of the stack loop: the pad of \<open>f\<close> is created, recorded, and used.\<close>

definition stackStep :: "nat \<Rightarrow> (nat \<times> nat) list \<times> Module \<Rightarrow> (nat \<times> nat) list \<times> Module" where
  "stackStep f st =
     (let (pad, m1) = GlobalVariable_new (IntegerTy 8) False InternalLinkage (getInt 8 0)
                        (getName (snd st) f @ ''.stack_pad'') (snd st)
      in (map_store (<) f pad (fst st), randomizeStack f pad m1))"

text \<open>The body of the code loop: \<open>f\<close> is transformed and registered in the constructor.\<close>

definition codeStep ::
  "(Constant \<Rightarrow> nat) \<Rightarrow> Runtime \<Rightarrow> nat \<Rightarrow> nat \<Rightarrow> (nat \<times> nat) list \<Rightarrow> nat \<Rightarrow> Module \<Rightarrow> Module option" where
  "codeStep addr rt ctor ctor_bb stackPads f m =
     (case randomizeCode addr f m of
        None \<Rightarrow> None
      | Some (args, m1) \<Rightarrow>
          (let table = (case map_lookup f stackPads of
                          Some pad \<Rightarrow> Const (GlobalVariable pad)
                        | None \<Rightarrow> Const ConstantPointerNull)
           in Some (snd (createAtEnd ctor ctor_bb Call (callType m1 (registerFunction rt))
                           (callOperands (registerFunction rt) (args @ [table])) m1))))"

definition registerCtor :: "Runtime \<Rightarrow> nat \<Rightarrow> nat \<Rightarrow> Constant \<Rightarrow> Module \<Rightarrow> Module" where
  "registerCtor rt ctor ctor_bb ctor_iter m =
     snd (createAtEnd ctor ctor_bb Call (callType m (registerConstructor rt))
            (callOperands (registerConstructor rt) [Const ctor_iter]) m)"

definition registerPad :: "Runtime \<Rightarrow> nat \<Rightarrow> nat \<Rightarrow> nat \<times> nat \<Rightarrow> Module \<Rightarrow> Module" where
  "registerPad rt ctor ctor_bb fp m =
     snd (createAtEnd ctor ctor_bb Call (callType m (registerStackPad rt))
            (callOperands (registerStackPad rt) [Const (GlobalVariable (snd fp))]) m)"

definition renameMain :: "Module \<Rightarrow> Module" where
  "renameMain m =
     (case getFunction m ''main'' of
        Some main \<Rightarrow> setName main ''stabilizer_main'' m
      | None \<Rightarrow> m)"

text \<open>
  \<^verbatim>\<open>StabilizerImpl::operator()\<close>, which both pass wrappers call from
  \<^verbatim>\<open>run\<close> and \<^verbatim>\<open>runOnModule\<close>.
\<close>

definition runOnModule :: "Options \<Rightarrow> (Constant \<Rightarrow> nat) \<Rightarrow> Module \<Rightarrow> Module option" where
  "runOnModule opts addr m =
     (let m1 = (if stabilize_heap opts then randomizeHeap m else m);
          local_functions = localFunctions m1;
          (rt, m2) = declareRuntimeFunctions m1;
          (stackPads, m3) =
            (if stabilize_stack opts then fold stackStep local_functions ([], m2) else ([], m2));
          old_ctors = getConstructors m3;
          (ctor, m4) = makeConstructor ''stabilizer.module_ctor'' m3;
          (ctor_bb, m5) = BasicBlock_Create ctor m4
      in case (if stabilize_code opts
               then foldM (codeStep addr rt ctor ctor_bb stackPads) local_functions m5
               else Some m5) of
           None \<Rightarrow> None
         | Some m6 \<Rightarrow>
             (let m7 = fold (registerCtor rt ctor ctor_bb) old_ctors m6;
                  m8 = (if stabilize_stack opts \<and> \<not> stabilize_code opts
                        then fold (registerPad rt ctor ctor_bb) stackPads m7 else m7);
                  m9 = snd (createAtEnd ctor ctor_bb Ret VoidTy [] m8)
              in Some (renameMain m9)))"


section \<open>The collection of uses in the words of the specification\<close>



fun firstOccurrences :: "'a list \<Rightarrow> 'a list \<Rightarrow> 'a list" where
  "firstOccurrences seen [] = []"
| "firstOccurrences seen (x # xs) =
     (if x \<in> set seen then firstOccurrences seen xs else x # firstOccurrences (x # seen) xs)"


text \<open>The fields of the initializer of the global variable \<^verbatim>\<open>n.relocation_table\<close>.\<close>

definition relocationTable :: "Module \<Rightarrow> string \<Rightarrow> Constant list option" where
  "relocationTable m n =
     (case find (\<lambda>g. gv_name g = n @ ''.relocation_table'') (global_list m) of
        Some g \<Rightarrow> (case gv_init g of Some (ConstantStruct t cs) \<Rightarrow> Some cs | _ \<Rightarrow> None)
      | None \<Rightarrow> None)"

section \<open>Notions used in the proofs\<close>

text \<open>The keys of the map of \<^verbatim>\<open>findPCRelativeUsesIn\<close>, in the order of the map.\<close>

definition keysOf :: "References \<Rightarrow> Constant list" where
  "keysOf r = map fst r"






text \<open>
  How the function list changes once the heap sub-pass is over. A step rewrites the
  functions in place, keeping their handles and names and leaving alone those whose
  handle is in \<open>K\<close>; or it adds a function with a handle from \<open>B\<close> on and a name other
  than \<^verbatim>\<open>main\<close>, at the end or after a function whose handle is not in \<open>A\<close>.
\<close>

inductive evolve :: "nat set \<Rightarrow> nat set \<Rightarrow> nat \<Rightarrow> Func list \<Rightarrow> Func list \<Rightarrow> bool"
  for K :: "nat set" and A :: "nat set" and B :: nat and fs :: "Func list" where
  evolve_refl: "evolve K A B fs fs"
| evolve_update:
    "evolve K A B fs fs1 \<Longrightarrow> \<forall>x. fn_id (g x) = fn_id x \<and> fn_name (g x) = fn_name x \<Longrightarrow>
     \<forall>x \<in> set fs1. fn_id x \<in> K \<longrightarrow> g x = x \<Longrightarrow> evolve K A B fs (map g fs1)"
| evolve_append:
    "evolve K A B fs fs1 \<Longrightarrow> B \<le> fn_id n \<Longrightarrow> fn_name n \<noteq> ''main'' \<Longrightarrow>
     evolve K A B fs (fs1 @ [n])"
| evolve_insert:
    "evolve K A B fs fs1 \<Longrightarrow> B \<le> fn_id n \<Longrightarrow> fn_name n \<noteq> ''main'' \<Longrightarrow> h \<notin> A \<Longrightarrow>
     evolve K A B fs (insertAfter h n fs1)"

text \<open>The handles of the functions are distinct and below the next handle.\<close>

definition wfHandles :: "Module \<Rightarrow> bool" where
  "wfHandles m =
     (distinct (map fn_id (function_list m)) \<and>
      (\<forall>x \<in> set (function_list m). fn_id x < next_handle m))"

text \<open>
  A step of the pass between two modules: the function list evolves, the next handle
  does not go down, the target stays, and well-formed handles stay well-formed.
\<close>

definition evolves :: "nat set \<Rightarrow> nat set \<Rightarrow> Module \<Rightarrow> Module \<Rightarrow> bool" where
  "evolves K A m m' =
     (evolve K A (next_handle m) (function_list m) (function_list m') \<and>
      next_handle m \<le> next_handle m' \<and>
      target_triple m' = target_triple m \<and> pointer_size m' = pointer_size m \<and>
      (wfHandles m \<longrightarrow> wfHandles m'))"

text \<open>The handles in \<open>K\<close> are in use: a fresh handle is none of them.\<close>

definition below :: "nat set \<Rightarrow> Module \<Rightarrow> bool" where
  "below K m = (\<forall>k \<in> K. k < next_handle m)"

text \<open>
  The dummy function of \<^verbatim>\<open>randomizeCode\<close> with handle \<open>h\<close> for a function named
  \<open>n\<close>: internal, of type \<^verbatim>\<open>void()\<close>, aligned to 64 bytes, with one block that holds a
  return of no value.
\<close>

definition dummyFunction :: "nat \<Rightarrow> string \<Rightarrow> Func" where
  "dummyFunction h n =
     \<lparr>fn_id = h, fn_name = ''stabilizer.dummy.'' @ n, fn_type = FunctionTy VoidTy [],
      fn_linkage = InternalLinkage, fn_align = 64, fn_attrs = [],
      fn_blocks =
        [\<lparr>bb_id = h + 1,
          bb_insts = [\<lparr>inst_id = h + 2, inst_op = Ret, inst_ty = VoidTy, inst_operands = [],
                       inst_incoming = []\<rparr>]\<rparr>]\<rparr>"

text \<open>The functions whose handle is in \<open>K\<close> are declarations.\<close>

definition declsOnly :: "nat set \<Rightarrow> Module \<Rightarrow> bool" where
  "declsOnly K m = (\<forall>x \<in> set (function_list m). fn_id x \<in> K \<longrightarrow> fn_blocks x = [])"

section \<open>Example modules\<close>

text \<open>
  The address order used in the examples: a global value lies at its handle, any other
  constant at address 0.
\<close>

definition exampleAddr :: "Constant \<Rightarrow> nat" where
  "exampleAddr c = (case c of GlobalVariable h \<Rightarrow> h | Function h \<Rightarrow> h | _ \<Rightarrow> 0)"

text \<open>
  \<^verbatim>\<open>int g = 7; int h() { return g; }\<close> for x86-64: the function \<^verbatim>\<open>h\<close> loads
  the global \<^verbatim>\<open>g\<close> and returns the value.
\<close>

definition loadGlobalModule :: Module where
  "loadGlobalModule =
     \<lparr>target_triple = ''x86_64-unknown-linux-gnu'', pointer_size = 8,
      function_list =
        [\<lparr>fn_id = 1, fn_name = ''h'', fn_type = FunctionTy (IntegerTy 32) [],
          fn_linkage = ExternalLinkage, fn_align = 0, fn_attrs = [],
          fn_blocks =
            [\<lparr>bb_id = 2,
              bb_insts =
                [\<lparr>inst_id = 3, inst_op = Load, inst_ty = IntegerTy 32,
                  inst_operands = [Const (GlobalVariable 0)], inst_incoming = []\<rparr>,
                 \<lparr>inst_id = 4, inst_op = Ret, inst_ty = VoidTy,
                  inst_operands = [Inst 3], inst_incoming = []\<rparr>]\<rparr>]\<rparr>],
      global_list =
        [\<lparr>gv_id = 0, gv_name = ''g'', gv_type = IntegerTy 32, gv_constant = False,
          gv_linkage = ExternalLinkage, gv_init = Some (ConstantInt 32 7)\<rparr>],
      next_handle = 5\<rparr>"

text \<open>The same module after the first half of \<^verbatim>\<open>randomizeCode\<close> on \<^verbatim>\<open>h\<close>.\<close>

definition loadGlobalPrepared :: Module where
  "loadGlobalPrepared =
     \<lparr>target_triple = ''x86_64-unknown-linux-gnu'', pointer_size = 8,
     function_list =
     [\<lparr>fn_id = 1, fn_name = ''h'',
     fn_type = FunctionTy (IntegerTy 32) [],
     fn_linkage = ExternalLinkage, fn_align = 0, fn_attrs = [],
     fn_blocks =
     [\<lparr>bb_id = 2,
     bb_insts =
     [\<lparr>inst_id = 3, inst_op = Load,
     inst_ty = IntegerTy 32,
     inst_operands = [Const (GlobalVariable 0)],
     inst_incoming = []\<rparr>,
     \<lparr>inst_id = 4, inst_op = Ret, inst_ty = VoidTy,
     inst_operands = [Inst 3],
     inst_incoming = []\<rparr>]\<rparr>]\<rparr>,
     \<lparr>fn_id = 5, fn_name = ''stabilizer.dummy.h'',
     fn_type = FunctionTy VoidTy [], fn_linkage = InternalLinkage,
     fn_align = 64, fn_attrs = [],
     fn_blocks =
     [\<lparr>bb_id = 6,
     bb_insts =
     [\<lparr>inst_id = 7, inst_op = Ret, inst_ty = VoidTy,
     inst_operands = [], inst_incoming = []\<rparr>]\<rparr>]\<rparr>],
     global_list =
     [\<lparr>gv_id = 0, gv_name = ''g'', gv_type = IntegerTy 32,
     gv_constant = False, gv_linkage = ExternalLinkage,
     gv_init = Some (ConstantInt 32 7)\<rparr>],
     next_handle = 8\<rparr>"



text \<open>The same program for a 32-bit x86 target, where data is not PC-relative.\<close>

definition loadGlobalModule32 :: Module where
  "loadGlobalModule32 = loadGlobalModule\<lparr>target_triple := ''i686-pc-linux-gnu'', pointer_size := 4\<rparr>"

text \<open>
  A module that declares an external \<^verbatim>\<open>main\<close> and defines one function \<^verbatim>\<open>run\<close> that
  returns.
\<close>

definition declaredMainModule :: Module where
  "declaredMainModule =
     \<lparr>target_triple = ''x86_64-unknown-linux-gnu'', pointer_size = 8,
      function_list =
        [\<lparr>fn_id = 0, fn_name = ''main'', fn_type = FunctionTy (IntegerTy 32) [],
          fn_linkage = ExternalLinkage, fn_align = 0, fn_attrs = [], fn_blocks = []\<rparr>,
         \<lparr>fn_id = 1, fn_name = ''run'', fn_type = FunctionTy VoidTy [],
          fn_linkage = ExternalLinkage, fn_align = 0, fn_attrs = [],
          fn_blocks =
            [\<lparr>bb_id = 2,
              bb_insts =
                [\<lparr>inst_id = 3, inst_op = Ret, inst_ty = VoidTy,
                  inst_operands = [], inst_incoming = []\<rparr>]\<rparr>]\<rparr>],
      global_list = [],
      next_handle = 4\<rparr>"

definition allOptions :: Options where
  "allOptions = \<lparr>stabilize_heap = True, stabilize_stack = True, stabilize_code = True\<rparr>"

section \<open>General lemmas\<close>

lemma fold_invariant:
  "P s \<Longrightarrow> (\<And>x s. x \<in> set xs \<Longrightarrow> P s \<Longrightarrow> P (g x s)) \<Longrightarrow> P (fold g xs s)"
  by (induction xs arbitrary: s) simp_all

lemma foldM_invariant:
  "foldM g xs s = Some s' \<Longrightarrow> P s \<Longrightarrow>
   (\<And>x s s'. x \<in> set xs \<Longrightarrow> P s \<Longrightarrow> g x s = Some s' \<Longrightarrow> P s') \<Longrightarrow> P s'"
proof (induction xs arbitrary: s)
  case Nil
  then show ?case by simp
next
  case (Cons x xs)
  from Cons.prems(1) obtain s1 where s1: "g x s = Some s1" and r: "foldM g xs s1 = Some s'"
    by (auto split: option.splits)
  have "P s1" using Cons.prems(2,3) s1 by auto
  then show ?case using Cons.IH [OF r] Cons.prems(3) by auto
qed

lemma foldM_total: "(\<And>x s. x \<in> set xs \<Longrightarrow> g x s \<noteq> None) \<Longrightarrow> foldM g xs s \<noteq> None"
proof (induction xs arbitrary: s)
  case Nil
  then show ?case by simp
next
  case (Cons x xs)
  then obtain s1 where "g x s = Some s1" by fastforce
  then show ?case using Cons by auto
qed

section \<open>Evaluation of the examples\<close>

lemmas eval_defs =
  getFunction_def lookupFunction_def getName_def getFunctionType_def getBlocks_def
  isIntrinsicName_def isIntrinsic_def isDeclaration_def hasLocalLinkage_def getGlobalVariable_def
  returnType_def getInst_def isTerminator_def getTerminator_def updateFunction_def
  updateBlocks_def newFunc_def Function_Create_def GlobalVariable_new_def BasicBlock_Create_def
  insertBefore_def insertAtEnd_def mapInsts_def setOperand_def eraseFromParent_def
  replaceInstUses_def substValue_def replaceAllUsesWith_def setName_def updateGlobal_def
  eraseGlobal_def eraseFunction_def newInst_def createBefore_def createAtEnd_def callOperands_def
  callType_def paramType_def valueType_def getPointerCast_def getGetElementPtr_def getSizeOf_def
  scalarBits_def getIntegerCast_def APInt_def tolower_def getPlatform_def getIntptrType_def
  getIntptrSize_def getInt_def getIntptr_def isDataPCRelative_def use_less_def digit_char_def
  isGlobalOperand_def replaceHeapFunction_def randomizeHeap_def addFnAttr_def removeFnAttr_def
  declareRuntimeFunctions_def Intrinsic_getDeclaration_def ZExtOrBitCast_def padCall_def
  randomizeStack_def conversionName_def getFloatConversion_def isConversion_def getOperand_def
  incomingTerminator_def extractOperand_def extractInst_def extractFloatOperations_def
  recordUse_def recordOperand_def recordInst_def findPCRelativeUsesIn_def ALIGN_def
  createDummy_def rewriteUse_def usesOf_def rewriteConstant_def rewriteUses_def prepareCode_def rewriteCode_def
  randomizeCode_def entryFunction_def getConstructors_def makeConstructor_def
  isLocalFunction_def localFunctions_def stackStep_def codeStep_def registerCtor_def
  registerPad_def renameMain_def runOnModule_def exampleAddr_def enumerate_eq_zip Let_def

lemma prepareCode_loadGlobalModule:
  "prepareCode 1 loadGlobalModule = Some (5, loadGlobalPrepared)"
  by (simp add: loadGlobalModule_def loadGlobalPrepared_def eval_defs)


section \<open>The pass returns\<close>

text \<open>
  \<^verbatim>\<open>getFloatConversion\<close> aborts on an opcode it does not know;
  \<^verbatim>\<open>extractFloatOperations\<close> calls it on the five opcodes it knows only.
\<close>

lemma getFloatConversion_total:
  "conversionName opc \<noteq> None \<Longrightarrow> getFloatConversion opc i out m \<noteq> None"
  by (auto simp: getFloatConversion_def Let_def split: option.splits prod.splits)

lemma isConversion_name: "isConversion m opc \<Longrightarrow> conversionName opc \<noteq> None"
  by (auto simp: isConversion_def conversionName_def)

lemma extractInst_total: "extractInst f iid st \<noteq> None"
proof (cases "getInst (getBlocks (fst st) f) iid")
  case None
  then show ?thesis by (simp add: extractInst_def Let_def)
next
  case (Some i)
  show ?thesis
  proof (cases "isConversion (fst st) (inst_op i)")
    case True
    then have "getFloatConversion (inst_op i) (valueType (fst st) f (getOperand i 0))
                 (inst_ty i) (fst st) \<noteq> None"
      by (intro getFloatConversion_total isConversion_name)
    then show ?thesis
      using Some True by (auto simp: extractInst_def Let_def split: prod.splits)
  next
    case False
    then show ?thesis using Some by (simp add: extractInst_def Let_def)
  qed
qed

lemma extractFloatOperations_total: "extractFloatOperations f m \<noteq> None"
proof -
  have "foldM (extractInst f) (map inst_id (allInsts (getBlocks m f))) (m, []) \<noteq> None"
    by (rule foldM_total) (rule extractInst_total)
  then show ?thesis
    by (auto simp: extractFloatOperations_def split: option.splits)
qed

lemma prepareCode_total: "\<exists>m4. prepareCode f m = Some (fst (createDummy f m), m4)"
proof -
  obtain nx m1 where c: "createDummy f m = (nx, m1)" by (cases "createDummy f m")
  let ?m3 = "updateFunction f
     (\<lambda>x. if fn_linkage x = LinkOnceODRLinkage then x\<lparr>fn_linkage := ExternalLinkage\<rparr> else x)
     (removeFnAttr f StackProtectReq (removeFnAttr f StackProtect m1))"
  obtain m4 where "extractFloatOperations f ?m3 = Some m4"
    using extractFloatOperations_total [of f ?m3] by auto
  then show ?thesis using c by (simp add: prepareCode_def Let_def)
qed

lemma randomizeCode_total: "\<exists>args m'. randomizeCode addr f m = Some (args, m')"
proof -
  obtain m4 where "prepareCode f m = Some (fst (createDummy f m), m4)"
    using prepareCode_total by blast
  then show ?thesis
    by (cases "rewriteCode addr f (fst (createDummy f m)) m4") (simp add: randomizeCode_def)
qed

section \<open>Ordered containers\<close>

lemma set_set_insert [simp]: "set (set_insert lt x xs) = insert x (set xs)"
  by (induction xs) auto

lemma set_insert_sorted:
  "sorted (map addr xs) \<Longrightarrow>
   sorted (map addr (set_insert (\<lambda>a b. (addr a :: nat) < addr b) x xs))"
proof (induction xs)
  case Nil
  then show ?case by simp
next
  case (Cons y ys)
  then show ?case by (auto simp: not_less less_imp_le)
qed

lemma set_insert_present:
  "x \<in> set xs \<Longrightarrow> sorted (map addr xs) \<Longrightarrow>
   set_insert (\<lambda>a b. (addr a :: nat) < addr b) x xs = xs"
proof (induction xs)
  case Nil
  then show ?case by simp
next
  case (Cons y ys)
  show ?case
  proof (cases "x = y")
    case True
    then show ?thesis by simp
  next
    case False
    then have xin: "x \<in> set ys" using Cons.prems(1) by simp
    have "addr y \<le> addr x" using Cons.prems(2) xin by auto
    then have "\<not> addr x < addr y" by simp
    moreover have "set_insert (\<lambda>a b. addr a < addr b) x ys = ys"
      using Cons.IH xin Cons.prems(2) by simp
    ultimately show ?thesis using False by simp
  qed
qed

lemma set_insert_absent_distinct:
  "x \<notin> set xs \<Longrightarrow> distinct xs \<Longrightarrow> distinct (set_insert lt x xs)"
  by (induction xs) auto

lemma set_insert_distinct:
  "distinct xs \<Longrightarrow> sorted (map addr xs) \<Longrightarrow>
   distinct (set_insert (\<lambda>a b. (addr a :: nat) < addr b) x xs)"
  by (cases "x \<in> set xs") (simp_all add: set_insert_present set_insert_absent_distinct)


lemma map_lookup_map_store [simp]:
  "map_lookup k' (map_store lt k v xs) = (if k' = k then Some v else map_lookup k' xs)"
  by (induction xs) auto

section \<open>The collection\<close>

lemma keysOf_Nil [simp]: "keysOf [] = []"
  by (simp add: keysOf_def)













lemma set_firstOccurrences: "set (firstOccurrences seen xs) = set xs - set seen"
  by (induction xs arbitrary: seen) auto

lemma distinct_firstOccurrences: "distinct (firstOccurrences seen xs)"
  by (induction xs arbitrary: seen) (auto simp: set_firstOccurrences)




text \<open>The counter of the rewriting loop is the position in the list.\<close>

lemma fold_rewriteConstant_enumerate:
  "fold (rewriteConstant f T A refs) cs (n, m) =
     (n + length cs,
      fold (\<lambda>ic. fold (rewriteUse f T A (fst ic)) (usesOf refs (snd ic))) (enumerate n cs) m)"
  by (induction cs arbitrary: n m) (simp_all add: rewriteConstant_def)

lemma rewriteUses_enumerate:
  "rewriteUses f T A refs cs m =
     fold (\<lambda>ic. fold (rewriteUse f T A (fst ic)) (usesOf refs (snd ic))) (enumerate 0 cs) m"
  by (simp add: rewriteUses_def fold_rewriteConstant_enumerate)


section \<open>Edits of a function body\<close>

lemma allInsts_append [simp]: "allInsts (xs @ ys) = allInsts xs @ allInsts ys"
  by (induction xs) simp_all

lemma allInsts_concat: "allInsts bs = concat (map bb_insts bs)"
  by (induction bs) simp_all

lemma allInsts_mapInsts [simp]: "allInsts (mapInsts g bs) = map g (allInsts bs)"
  by (induction bs) (simp_all add: mapInsts_def)



lemma find_map_same:
  "(\<And>y. P (g y) = P y) \<Longrightarrow> find P (map g xs) = map_option g (find P xs)"
  by (induction xs) simp_all

lemma lookupFunction_updateFunction:
  assumes "\<And>y. fn_id (g y) = fn_id y"
  shows "lookupFunction (updateFunction h g m) k =
     map_option (\<lambda>y. if fn_id y = h then g y else y) (lookupFunction m k)"
proof -
  have "\<And>y. (fn_id (if fn_id y = h then g y else y) = k) = (fn_id y = k)"
    using assms by simp
  then show ?thesis
    unfolding lookupFunction_def updateFunction_def
    by (simp add: find_map_same [where P = "\<lambda>f. fn_id f = k"])
qed


lemma lookupFunction_updateBlocks:
  "lookupFunction (updateBlocks h g m) k =
     map_option (\<lambda>y. if fn_id y = h then y\<lparr>fn_blocks := g (fn_blocks y)\<rparr> else y) (lookupFunction m k)"
  by (simp add: updateBlocks_def lookupFunction_updateFunction)

lemma getName_updateBlocks [simp]: "getName (updateBlocks h g m) k = getName m k"
  by (cases "lookupFunction m k") (simp_all add: getName_def lookupFunction_updateBlocks)


lemma getName_next_handle [simp]: "getName (m\<lparr>next_handle := n\<rparr>) k = getName m k"
  by (simp add: getName_def lookupFunction_def)

lemma getBlocks_next_handle [simp]: "getBlocks (m\<lparr>next_handle := n\<rparr>) k = getBlocks m k"
  by (simp add: getBlocks_def lookupFunction_def)

lemma lookupFunction_next_handle [simp]:
  "lookupFunction (m\<lparr>next_handle := n\<rparr>) k = lookupFunction m k"
  by (simp add: lookupFunction_def)















lemma getName_rewriteUse [simp]: "getName (rewriteUse f T A idx u m) h = getName m h"
  by (simp add: rewriteUse_def Let_def createBefore_def newInst_def split: option.splits)

lemma getName_fold_rewriteUse [simp]: "getName (fold (rewriteUse f T A idx) us m) h = getName m h"
  by (induction us arbitrary: m) simp_all

lemma getName_fold_rewriteConstant [simp]:
  "getName (snd (fold (rewriteConstant f T A refs) cs st)) h = getName (snd st) h"
  by (induction cs arbitrary: st) (simp_all add: rewriteConstant_def)

lemma getName_rewriteUses [simp]: "getName (rewriteUses f T A refs cs m) h = getName m h"
  by (simp add: rewriteUses_def)

lemma getName_GlobalVariable_new [simp]:
  "getName (snd (GlobalVariable_new t c l i n m)) h = getName m h"
  by (simp add: GlobalVariable_new_def getName_def lookupFunction_def)

lemma getBlocks_GlobalVariable_new [simp]:
  "getBlocks (snd (GlobalVariable_new t c l i n m)) h = getBlocks m h"
  by (simp add: GlobalVariable_new_def getBlocks_def lookupFunction_def)

lemma isDataPCRelative_GlobalVariable_new [simp]:
  "isDataPCRelative (snd (GlobalVariable_new t c l i n m)) = isDataPCRelative m"
  by (simp add: GlobalVariable_new_def isDataPCRelative_def getPlatform_def)

lemma fst_GlobalVariable_new [simp]: "fst (GlobalVariable_new t c l i n m) = next_handle m"
  by (simp add: GlobalVariable_new_def)

text \<open>The module \<^verbatim>\<open>rewriteCode\<close> gives for a non-empty collection.\<close>

lemma rewriteCode_nonempty:
  assumes "V = map fst (findPCRelativeUsesIn addr m4 f)" and "V \<noteq> []"
    and "T = NamedStructTy (getName m4 f @ ''.relocation_table_t'') (map getType V)"
    and "m5 = snd (GlobalVariable_new T False InternalLinkage (ConstantStruct T V)
                     (getName m4 f @ ''.relocation_table'') m4)"
    and "A = (if isDataPCRelative m4 then getPointerCast (Function next) PointerTy
              else GlobalVariable (next_handle m4))"
  shows "snd (rewriteCode addr f next m4) = rewriteUses f T A (findPCRelativeUsesIn addr m4 f) V m5"
  using assms by (simp add: rewriteCode_def Let_def case_prod_beta)



section \<open>How the function list evolves\<close>

lemma evolve_mono_bound: "evolve K A B' fs fs' \<Longrightarrow> B \<le> B' \<Longrightarrow> evolve K A B fs fs'"
  by (induction rule: evolve.induct) (auto intro: evolve.intros)

lemma evolve_trans:
  "evolve K A B fs1 fs2 \<Longrightarrow> evolve K A B fs fs1 \<Longrightarrow> evolve K A B fs fs2"
  by (induction rule: evolve.induct) (auto intro: evolve.intros)

lemma evolve_weaken: "evolve K A B fs fs' \<Longrightarrow> K' \<subseteq> K \<Longrightarrow> A' \<subseteq> A \<Longrightarrow> evolve K' A' B fs fs'"
  by (induction rule: evolve.induct) (auto intro: evolve.intros)

lemma set_insertAfter: "set (insertAfter h n fs) \<subseteq> insert n (set fs)"
  by (induction fs) auto

lemma set_insertAfter_old: "set fs \<subseteq> set (insertAfter h n fs)"
  by (induction fs) auto

lemma evolve_protected_back:
  "evolve K A B fs fs' \<Longrightarrow> \<forall>k \<in> K. k < B \<Longrightarrow> x \<in> set fs' \<Longrightarrow> fn_id x \<in> K \<Longrightarrow> x \<in> set fs"
proof (induction arbitrary: x rule: evolve.induct)
  case evolve_refl
  then show ?case by simp
next
  case (evolve_update fs1 g)
  from evolve_update.prems(2) obtain y where y: "y \<in> set fs1" "x = g y" by auto
  then have "fn_id y \<in> K" using evolve_update.hyps(2) evolve_update.prems(3) by simp
  then have "g y = y" using evolve_update.hyps(3) y by simp
  then show ?case using evolve_update.IH [of y] evolve_update.prems y \<open>fn_id y \<in> K\<close> by simp
next
  case (evolve_append fs1 n)
  then show ?case by fastforce
next
  case (evolve_insert fs1 n h)
  have "x \<in> insert n (set fs1)" using evolve_insert.prems(2) set_insertAfter by fastforce
  moreover have "x \<noteq> n" using evolve_insert.hyps(2) evolve_insert.prems(1,3) by fastforce
  ultimately show ?case using evolve_insert.IH evolve_insert.prems by simp
qed

lemma evolve_protected:
  "evolve K A B fs fs' \<Longrightarrow> x \<in> set fs \<Longrightarrow> fn_id x \<in> K \<Longrightarrow> x \<in> set fs'"
proof (induction rule: evolve.induct)
  case evolve_refl
  then show ?case by simp
next
  case (evolve_update fs1 g)
  then have "x \<in> set fs1" "g x = x" by simp_all
  then show ?case by force
next
  case (evolve_append fs1 n)
  then show ?case by simp
next
  case (evolve_insert fs1 n h)
  then show ?case using set_insertAfter_old by fastforce
qed

lemma evolve_main_back:
  "evolve K A B fs fs' \<Longrightarrow> y \<in> set fs' \<Longrightarrow> fn_name y = ''main'' \<Longrightarrow>
   \<exists>x \<in> set fs. fn_id x = fn_id y \<and> fn_name x = ''main''"
proof (induction arbitrary: y rule: evolve.induct)
  case evolve_refl
  then show ?case by auto
next
  case (evolve_update fs1 g)
  from evolve_update.prems(1) obtain z where z: "z \<in> set fs1" "y = g z" by auto
  then have "fn_name z = ''main''" "fn_id z = fn_id y"
    using evolve_update.hyps(2) evolve_update.prems(2) by simp_all
  then show ?case using evolve_update.IH [of z] z by auto
next
  case (evolve_append fs1 n)
  then show ?case by auto
next
  case (evolve_insert fs1 n h)
  have "y \<in> insert n (set fs1)" using evolve_insert.prems(1) set_insertAfter by fastforce
  then show ?case using evolve_insert by auto
qed

lemma evolve_persist:
  "evolve K A B fs fs' \<Longrightarrow> x \<in> set fs \<Longrightarrow>
   \<exists>y \<in> set fs'. fn_id y = fn_id x \<and> fn_name y = fn_name x"
proof (induction rule: evolve.induct)
  case evolve_refl
  then show ?case by auto
next
  case (evolve_update fs1 g)
  then obtain y where "y \<in> set fs1" "fn_id y = fn_id x" "fn_name y = fn_name x" by auto
  then have "g y \<in> set (map g fs1)" "fn_id (g y) = fn_id x" "fn_name (g y) = fn_name x"
    using evolve_update.hyps(2) by simp_all
  then show ?case by blast
next
  case (evolve_append fs1 n)
  then show ?case by auto
next
  case (evolve_insert fs1 n h)
  then show ?case using set_insertAfter_old by fastforce
qed

lemma insertAfter_append:
  "insertAfter h n (xs @ ys) =
     (if h \<in> fn_id ` set xs then insertAfter h n xs @ ys else xs @ insertAfter h n ys)"
  by (induction xs) auto

lemma evolve_adjacent:
  "evolve K A B fs fs' \<Longrightarrow> fs = pre @ F # S # post \<Longrightarrow> fn_id S \<in> K \<Longrightarrow> fn_id F \<in> A \<Longrightarrow>
   \<exists>pre' F' post'. fs' = pre' @ F' # S # post' \<and> fn_id F' = fn_id F"
proof (induction rule: evolve.induct)
  case evolve_refl
  then show ?case by blast
next
  case (evolve_update fs1 g)
  then obtain pre' F' post' where f: "fs1 = pre' @ F' # S # post'" "fn_id F' = fn_id F" by blast
  then have "g S = S" using evolve_update.hyps(3) evolve_update.prems(2) by simp
  then have "map g fs1 = map g pre' @ g F' # S # map g post'" using f by simp
  moreover have "fn_id (g F') = fn_id F" using evolve_update.hyps(2) f by simp
  ultimately show ?case by blast
next
  case (evolve_append fs1 n)
  then obtain pre' F' post' where f: "fs1 = pre' @ F' # S # post'" "fn_id F' = fn_id F" by blast
  then have "fs1 @ [n] = pre' @ F' # S # (post' @ [n])" by simp
  then show ?case using f by blast
next
  case (evolve_insert fs1 n h)
  then obtain pre' F' post' where f: "fs1 = pre' @ F' # S # post'" "fn_id F' = fn_id F" by blast
  have hF: "h \<noteq> fn_id F'" using evolve_insert.hyps(4) evolve_insert.prems(3) f by auto
  show ?case
  proof (cases "h \<in> fn_id ` set pre'")
    case True
    then have "insertAfter h n fs1 = insertAfter h n pre' @ F' # S # post'"
      using f by (simp add: insertAfter_append)
    then show ?thesis using f by blast
  next
    case False
    show ?thesis
    proof (cases "fn_id S = h")
      case True
      then have "insertAfter h n fs1 = pre' @ F' # S # (n # post')"
        using f False hF by (simp add: insertAfter_append)
      then show ?thesis using f by blast
    next
      case n: False
      then have "insertAfter h n fs1 = pre' @ F' # S # insertAfter h n post'"
        using f False hF by (simp add: insertAfter_append)
      then show ?thesis using f by blast
    qed
  qed
qed

section \<open>Steps of the pass\<close>

lemma evolves_refl [simp]: "evolves K A m m"
  by (simp add: evolves_def evolve_refl)

lemma evolves_trans: "evolves K A m m1 \<Longrightarrow> evolves K A m1 m2 \<Longrightarrow> evolves K A m m2"
  unfolding evolves_def
  by (auto intro: evolve_trans [where ?fs1.0 = "function_list m1"] evolve_mono_bound)

lemma evolves_weaken: "evolves K A m m' \<Longrightarrow> K' \<subseteq> K \<Longrightarrow> A' \<subseteq> A \<Longrightarrow> evolves K' A' m m'"
  by (auto simp: evolves_def intro: evolve_weaken)

lemma below_evolves: "below K m \<Longrightarrow> evolves K A m m' \<Longrightarrow> below K m'"
  by (fastforce simp: below_def evolves_def)

lemma wfHandles_evolves: "wfHandles m \<Longrightarrow> evolves K A m m' \<Longrightarrow> wfHandles m'"
  by (simp add: evolves_def)

lemma evolves_updateFunction:
  assumes "\<And>x. fn_id (g x) = fn_id x" "\<And>x. fn_name (g x) = fn_name x" "h \<notin> K"
  shows "evolves K A m (updateFunction h g m)"
proof -
  let ?g = "\<lambda>f. if fn_id f = h then g f else f"
  have "evolve K A (next_handle m) (function_list m) (map ?g (function_list m))"
    by (rule evolve_update [OF evolve_refl]) (use assms in auto)
  moreover have "map fn_id (map ?g (function_list m)) = map fn_id (function_list m)"
    using assms(1) by (induction "function_list m") auto
  ultimately show ?thesis
    using assms(1) by (auto simp: evolves_def updateFunction_def wfHandles_def simp del: map_map)
qed

lemma evolves_updateBlocks: "h \<notin> K \<Longrightarrow> evolves K A m (updateBlocks h g m)"
  unfolding updateBlocks_def by (rule evolves_updateFunction) simp_all

lemma evolves_addFnAttr: "h \<notin> K \<Longrightarrow> evolves K A m (addFnAttr h a m)"
  unfolding addFnAttr_def by (rule evolves_updateFunction) simp_all

lemma evolves_removeFnAttr: "h \<notin> K \<Longrightarrow> evolves K A m (removeFnAttr h a m)"
  unfolding removeFnAttr_def by (rule evolves_updateFunction) simp_all

lemma evolves_same_functions:
  assumes "function_list m' = function_list m" "next_handle m \<le> next_handle m'"
    "target_triple m' = target_triple m" "pointer_size m' = pointer_size m"
  shows "evolves K A m m'"
  using assms by (fastforce simp: evolves_def evolve_refl wfHandles_def)

lemma evolves_newInst: "evolves K A m (snd (newInst opc t ops m))"
  by (rule evolves_same_functions) (simp_all add: newInst_def)

lemma evolves_GlobalVariable_new: "evolves K A m (snd (GlobalVariable_new t c l i n m))"
  by (rule evolves_same_functions) (simp_all add: GlobalVariable_new_def)

lemma evolves_updateGlobal: "evolves K A m (updateGlobal h g m)"
  by (rule evolves_same_functions) (simp_all add: updateGlobal_def)

lemma evolves_eraseGlobal: "evolves K A m (eraseGlobal h m)"
  by (rule evolves_same_functions) (simp_all add: eraseGlobal_def)

lemma evolves_createBefore: "f \<notin> K \<Longrightarrow> evolves K A m (snd (createBefore f p opc t ops m))"
  unfolding createBefore_def case_prod_beta Let_def snd_conv
  by (rule evolves_trans [OF evolves_newInst evolves_updateBlocks])

lemma evolves_createAtEnd: "f \<notin> K \<Longrightarrow> evolves K A m (snd (createAtEnd f b opc t ops m))"
  unfolding createAtEnd_def case_prod_beta Let_def snd_conv
  by (rule evolves_trans [OF evolves_newInst evolves_updateBlocks])

lemma evolves_next_handle: "next_handle m \<le> n \<Longrightarrow> evolves K A m (m\<lparr>next_handle := n\<rparr>)"
  by (rule evolves_same_functions) simp_all

lemma evolves_BasicBlock_Create: "f \<notin> K \<Longrightarrow> evolves K A m (snd (BasicBlock_Create f m))"
proof -
  assume f: "f \<notin> K"
  let ?m1 = "updateBlocks f (\<lambda>bs. bs @ [\<lparr>bb_id = next_handle m, bb_insts = []\<rparr>]) m"
  have 1: "evolves K A m ?m1" using f by (rule evolves_updateBlocks)
  have "next_handle ?m1 = next_handle m" by (simp add: updateBlocks_def updateFunction_def)
  then have 2: "evolves K A ?m1 (?m1\<lparr>next_handle := Suc (next_handle m)\<rparr>)"
    by (intro evolves_next_handle) simp
  show ?thesis
    unfolding BasicBlock_Create_def snd_conv by (rule evolves_trans [OF 1 2])
qed

lemma evolves_Function_Create:
  assumes "n \<noteq> ''main''"
  shows "evolves K A m (snd (Function_Create t l n m))"
proof -
  have "evolve K A (next_handle m) (function_list m)
          (function_list m @ [newFunc (next_handle m) t l n])"
    by (rule evolve_append [OF evolve_refl]) (use assms in \<open>simp_all add: newFunc_def\<close>)
  then show ?thesis
    by (fastforce simp: evolves_def Function_Create_def wfHandles_def newFunc_def)
qed

lemma distinct_insertAfter:
  "distinct (map fn_id fs) \<Longrightarrow> fn_id n \<notin> fn_id ` set fs \<Longrightarrow> distinct (map fn_id (insertAfter h n fs))"
proof (induction fs)
  case Nil
  then show ?case by simp
next
  case (Cons x xs)
  have "fn_id ` set (insertAfter h n xs) \<subseteq> insert (fn_id n) (fn_id ` set xs)"
    using set_insertAfter [of h n xs] by auto
  then show ?case using Cons by auto
qed

lemma evolves_createDummy:
  assumes "f \<notin> A"
  shows "evolves K A m (snd (createDummy f m))"
proof -
  let ?n = "\<lparr>fn_id = next_handle m, fn_name = ''stabilizer.dummy.'' @ getName m f,
             fn_type = FunctionTy VoidTy [], fn_linkage = InternalLinkage, fn_align = ALIGN,
             fn_attrs = [],
             fn_blocks = [\<lparr>bb_id = next_handle m + 1,
                           bb_insts = [\<lparr>inst_id = next_handle m + 2, inst_op = Ret, inst_ty = VoidTy,
                                        inst_operands = [], inst_incoming = []\<rparr>]\<rparr>]\<rparr>"
  have d: "snd (createDummy f m) =
      m\<lparr>function_list := insertAfter f ?n (function_list m), next_handle := next_handle m + 3\<rparr>"
    by (simp add: createDummy_def Let_def newFunc_def)
  have e: "evolve K A (next_handle m) (function_list m) (insertAfter f ?n (function_list m))"
    by (rule evolve_insert [OF evolve_refl]) (use assms in simp_all)
  have w: "wfHandles m \<Longrightarrow> wfHandles (snd (createDummy f m))"
  proof -
    assume w: "wfHandles m"
    then have "fn_id ?n \<notin> fn_id ` set (function_list m)" by (auto simp: wfHandles_def)
    then have "distinct (map fn_id (insertAfter f ?n (function_list m)))"
      using w distinct_insertAfter by (simp add: wfHandles_def)
    moreover have "\<forall>x \<in> set (insertAfter f ?n (function_list m)). fn_id x < next_handle m + 3"
      using w set_insertAfter [of f ?n "function_list m"] by (fastforce simp: wfHandles_def)
    ultimately show ?thesis unfolding d by (simp add: wfHandles_def)
  qed
  show ?thesis
    using e w unfolding evolves_def d by simp
qed

lemma evolves_fold:
  assumes "\<And>x s. x \<in> set xs \<Longrightarrow> evolves K A m s \<Longrightarrow> evolves K A s (g x s)"
  shows "evolves K A m (fold g xs m)"
  by (rule fold_invariant [where P = "evolves K A m"])
     (auto intro: evolves_trans assms)

lemma evolves_foldM:
  assumes "foldM g xs m = Some m'"
    and "\<And>x s s'. x \<in> set xs \<Longrightarrow> evolves K A m s \<Longrightarrow> g x s = Some s' \<Longrightarrow> evolves K A s s'"
  shows "evolves K A m m'"
  by (rule foldM_invariant [OF assms(1), where P = "evolves K A m"])
     (auto intro: evolves_trans assms(2))

lemma conversionName_not_main: "conversionName opc = Some s \<Longrightarrow> s @ r \<noteq> ''main''"
  by (auto simp: conversionName_def split: if_splits)

lemma fst_Function_Create [simp]: "fst (Function_Create t l n m) = next_handle m"
  by (simp add: Function_Create_def)

lemma evolves_getFloatConversion:
  assumes b: "below K m" and g: "getFloatConversion opc i out m = Some (h, m')"
  shows "evolves K A m m'"
proof -
  obtain s where s: "conversionName opc = Some s"
    using g by (auto simp: getFloatConversion_def split: option.splits)
  let ?name = "s @ ''.'' @ print_ty i @ ''.'' @ print_ty out"
  show ?thesis
  proof (cases "getFunction m ?name")
    case (Some f)
    then show ?thesis using g s by (simp add: getFloatConversion_def)
  next
    case None
    let ?m1 = "snd (Function_Create (FunctionTy out [i]) InternalLinkage ?name m)"
    let ?f = "next_handle m"
    let ?m2 = "snd (BasicBlock_Create ?f ?m1)"
    let ?b = "fst (BasicBlock_Create ?f ?m1)"
    let ?m3 = "snd (createAtEnd ?f ?b opc out [Argument 0] ?m2)"
    let ?r = "fst (createAtEnd ?f ?b opc out [Argument 0] ?m2)"
    let ?m4 = "snd (createAtEnd ?f ?b Ret VoidTy [Inst ?r] ?m3)"
    have f: "?f \<notin> K" using b by (auto simp: below_def)
    have m': "m' = ?m4"
      using g s None by (auto simp: getFloatConversion_def Let_def case_prod_beta)
    have "evolves K A m ?m1"
      by (rule evolves_Function_Create) (use conversionName_not_main [OF s] in simp)
    moreover have "evolves K A ?m1 ?m2" using f by (rule evolves_BasicBlock_Create)
    moreover have "evolves K A ?m2 ?m3" using f by (rule evolves_createAtEnd)
    moreover have "evolves K A ?m3 ?m4" using f by (rule evolves_createAtEnd)
    ultimately show ?thesis unfolding m' by (blast intro: evolves_trans)
  qed
qed

lemma evolves_extractOperand: "f \<notin> K \<Longrightarrow> evolves K A m (extractOperand f i kop m)"
proof -
  assume f: "f \<notin> K"
  show ?thesis
  proof (cases "snd kop")
    case (Const c)
    show ?thesis
    proof (cases "containsConstantFloat c")
      case True
      let ?m1 = "snd (GlobalVariable_new (getType c) True InternalLinkage c ''fconst'' m)"
      let ?g = "fst (GlobalVariable_new (getType c) True InternalLinkage c ''fconst'' m)"
      let ?p = "if inst_op i = PHI then incomingTerminator (getBlocks ?m1 f) i (fst kop)
                else Some (inst_id i)"
      let ?m2 = "snd (createBefore f ?p Load (getType c) [Const (GlobalVariable ?g)] ?m1)"
      let ?l = "fst (createBefore f ?p Load (getType c) [Const (GlobalVariable ?g)] ?m1)"
      have e: "extractOperand f i kop m = updateBlocks f (setOperand (inst_id i) (fst kop) (Inst ?l)) ?m2"
        using Const True by (simp add: extractOperand_def Let_def case_prod_beta)
      have "evolves K A m ?m1" by (rule evolves_GlobalVariable_new)
      moreover have "evolves K A ?m1 ?m2" using f by (rule evolves_createBefore)
      moreover have "evolves K A ?m2 (updateBlocks f (setOperand (inst_id i) (fst kop) (Inst ?l)) ?m2)"
        using f by (rule evolves_updateBlocks)
      ultimately show ?thesis unfolding e by (blast intro: evolves_trans)
    next
      case False
      then show ?thesis using Const by (simp add: extractOperand_def)
    qed
  qed (simp_all add: extractOperand_def)
qed

lemma evolves_extractInst:
  assumes b: "below K m" and f: "f \<notin> K" and e: "extractInst f iid (m, d) = Some (m', d')"
  shows "evolves K A m m'"
proof (cases "getInst (getBlocks m f) iid")
  case None
  then show ?thesis using e by (simp add: extractInst_def Let_def)
next
  case (Some i)
  show ?thesis
  proof (cases "isConversion m (inst_op i)")
    case True
    then obtain g m1 where g: "getFloatConversion (inst_op i) (valueType m f (getOperand i 0)) (inst_ty i) m = Some (g, m1)"
      using e Some by (auto simp: extractInst_def Let_def split: option.splits)
    let ?m2 = "snd (createBefore f (Some iid) Call (callType m1 g) (callOperands g [getOperand i 0]) m1)"
    let ?ci = "fst (createBefore f (Some iid) Call (callType m1 g) (callOperands g [getOperand i 0]) m1)"
    have m': "m' = updateBlocks f (replaceInstUses iid (Inst ?ci)) ?m2"
      using e Some True g by (simp add: extractInst_def Let_def case_prod_beta)
    have "evolves K A m m1" using b g by (rule evolves_getFloatConversion)
    moreover have "evolves K A m1 ?m2" using f by (rule evolves_createBefore)
    moreover have "evolves K A ?m2 (updateBlocks f (replaceInstUses iid (Inst ?ci)) ?m2)"
      using f by (rule evolves_updateBlocks)
    ultimately show ?thesis unfolding m' by (blast intro: evolves_trans)
  next
    case False
    then have m': "m' = fold (extractOperand f i) (enumerate 0 (inst_operands i)) m"
      using e Some by (simp add: extractInst_def Let_def)
    show ?thesis unfolding m'
      by (rule evolves_fold) (rule evolves_extractOperand [OF f])
  qed
qed

lemma evolves_extractFloatOperations:
  assumes b: "below K m" and f: "f \<notin> K" and e: "extractFloatOperations f m = Some m'"
  shows "evolves K A m m'"
proof -
  obtain m1 d where fm: "foldM (extractInst f) (map inst_id (allInsts (getBlocks m f))) (m, []) = Some (m1, d)"
    and m': "m' = fold (\<lambda>i. updateBlocks f (eraseFromParent i)) d m1"
    using e by (auto simp: extractFloatOperations_def split: option.splits)
  have "evolves K A m (fst (m1, d))"
  proof (rule foldM_invariant [OF fm, where P = "\<lambda>s. evolves K A m (fst s)"])
    show "evolves K A m (fst (m, []))" by simp
  next
    fix x s s'
    assume s: "evolves K A m (fst s)" and x: "extractInst f x s = Some s'"
    have "below K (fst s)" using b s by (rule below_evolves)
    then have "evolves K A (fst s) (fst s')"
      using f x evolves_extractInst [of K "fst s" f x "snd s" "fst s'" "snd s'" A] by simp
    then show "evolves K A m (fst s')" using s by (blast intro: evolves_trans)
  qed
  then have 1: "evolves K A m m1" by simp
  have "evolves K A m1 m'" unfolding m'
    by (rule evolves_fold) (rule evolves_updateBlocks [OF f])
  then show ?thesis using 1 by (blast intro: evolves_trans)
qed

lemma evolves_prepareCode_after:
  assumes b: "below K (snd (createDummy f m))" and f: "f \<notin> K"
    and p: "prepareCode f m = Some (nx, m4)"
  shows "evolves K A (snd (createDummy f m)) m4"
proof -
  let ?m1 = "snd (createDummy f m)"
  let ?m2 = "removeFnAttr f StackProtectReq (removeFnAttr f StackProtect ?m1)"
  let ?m3 = "updateFunction f
     (\<lambda>x. if fn_linkage x = LinkOnceODRLinkage then x\<lparr>fn_linkage := ExternalLinkage\<rparr> else x) ?m2"
  have e: "extractFloatOperations f ?m3 = Some m4"
    using p by (auto simp: prepareCode_def Let_def case_prod_beta split: option.splits)
  have 2: "evolves K A ?m1 ?m2"
    using f by (blast intro: evolves_trans evolves_removeFnAttr)
  have 3: "evolves K A ?m2 ?m3" by (rule evolves_updateFunction) (use f in simp_all)
  have 13: "evolves K A ?m1 ?m3" using 2 3 by (blast intro: evolves_trans)
  have "below K ?m3" using b 13 by (blast intro: below_evolves)
  then have 4: "evolves K A ?m3 m4" using f e by (rule evolves_extractFloatOperations)
  show "evolves K A ?m1 m4" using 13 4 by (blast intro: evolves_trans)
qed

lemma evolves_prepareCode:
  assumes b: "below K m" and f: "f \<notin> K" "f \<notin> A" and p: "prepareCode f m = Some (nx, m4)"
  shows "evolves K A m m4"
proof -
  have 1: "evolves K A m (snd (createDummy f m))" using f(2) by (rule evolves_createDummy)
  then have "below K (snd (createDummy f m))" using b by (blast intro: below_evolves)
  then show ?thesis
    using evolves_prepareCode_after [OF _ f(1) p] 1 by (blast intro: evolves_trans)
qed

lemma evolves_rewriteUse: "f \<notin> K \<Longrightarrow> evolves K A m (rewriteUse f T R idx u m)"
proof (cases "getInst (getBlocks m f) (fst u)")
  case None
  then show ?thesis by (simp add: rewriteUse_def)
next
  case (Some user)
  assume f: "f \<notin> K"
  let ?p = "if inst_op user = PHI then incomingTerminator (getBlocks m f) user (snd u)
            else Some (inst_id user)"
  let ?slot = "getGetElementPtr T R [APInt 32 0, APInt 32 idx] True"
  let ?m1 = "snd (createBefore f ?p Load (getType ?slot) [Const ?slot] m)"
  let ?l = "fst (createBefore f ?p Load (getType ?slot) [Const ?slot] m)"
  have e: "rewriteUse f T R idx u m = updateBlocks f (setOperand (fst u) (snd u) (Inst ?l)) ?m1"
    using Some by (simp add: rewriteUse_def Let_def case_prod_beta)
  have "evolves K A m ?m1" using f by (rule evolves_createBefore)
  moreover have "evolves K A ?m1 (updateBlocks f (setOperand (fst u) (snd u) (Inst ?l)) ?m1)"
    using f by (rule evolves_updateBlocks)
  ultimately show ?thesis unfolding e by (blast intro: evolves_trans)
qed

lemma evolves_rewriteUses: "f \<notin> K \<Longrightarrow> evolves K A m (rewriteUses f T R refs cs m)"
  unfolding rewriteUses_enumerate
  by (rule evolves_fold, rule evolves_fold, rule evolves_rewriteUse)

lemma evolves_rewriteCode: "f \<notin> K \<Longrightarrow> evolves K A m (snd (rewriteCode addr f nx m))"
proof (cases "findPCRelativeUsesIn addr m f = []")
  case True
  then show ?thesis by (simp add: rewriteCode_def)
next
  case False
  assume f: "f \<notin> K"
  from False have "map fst (findPCRelativeUsesIn addr m f) \<noteq> []" by simp
  from rewriteCode_nonempty [OF refl this refl refl refl, where ?next = nx]
  show ?thesis
    using f by (auto intro: evolves_trans evolves_GlobalVariable_new evolves_rewriteUses)
qed

lemma evolves_randomizeCode_after:
  assumes b: "below K (snd (createDummy f m))" and f: "f \<notin> K"
    and r: "randomizeCode addr f m = Some (args, m')"
  shows "evolves K A (snd (createDummy f m)) m'"
proof -
  obtain nx m4 where p: "prepareCode f m = Some (nx, m4)" and m': "m' = snd (rewriteCode addr f nx m4)"
    using r by (auto simp: randomizeCode_def split: option.splits)
  have "evolves K A m4 m'" unfolding m' using f by (rule evolves_rewriteCode)
  then show ?thesis
    using evolves_prepareCode_after [OF b f p] by (blast intro: evolves_trans)
qed

lemma evolves_randomizeCode:
  assumes b: "below K m" and f: "f \<notin> K" "f \<notin> A" and r: "randomizeCode addr f m = Some (args, m')"
  shows "evolves K A m m'"
proof -
  have 1: "evolves K A m (snd (createDummy f m))" using f(2) by (rule evolves_createDummy)
  then have "below K (snd (createDummy f m))" using b by (blast intro: below_evolves)
  then show ?thesis
    using evolves_randomizeCode_after [OF _ f(1) r] 1 by (blast intro: evolves_trans)
qed

text \<open>The dummy function that \<^verbatim>\<open>randomizeCode\<close> puts after the function \<open>f\<close>.\<close>

lemma insertAfter_split:
  "\<exists>F \<in> set fs. fn_id F = f \<Longrightarrow>
   \<exists>pre F post. fn_id F = f \<and> fs = pre @ F # post \<and> insertAfter f n fs = pre @ F # n # post"
proof (induction fs)
  case Nil
  then show ?case by simp
next
  case (Cons x xs)
  show ?case
  proof (cases "fn_id x = f")
    case True
    then have "x # xs = [] @ x # xs \<and> insertAfter f n (x # xs) = [] @ x # n # xs" by simp
    then show ?thesis using True by blast
  next
    case False
    then obtain pre F post where "fn_id F = f" "xs = pre @ F # post"
      "insertAfter f n xs = pre @ F # n # post"
      using Cons by auto
    then have "x # xs = (x # pre) @ F # post \<and> insertAfter f n (x # xs) = (x # pre) @ F # n # post"
      using False by simp
    then show ?thesis using \<open>fn_id F = f\<close> by blast
  qed
qed

lemma createDummy_function_list:
  "function_list (snd (createDummy f m)) = insertAfter f (dummyFunction (next_handle m) (getName m f)) (function_list m)"
  "fst (createDummy f m) = next_handle m"
  "next_handle (snd (createDummy f m)) = next_handle m + 3"
  by (simp_all add: createDummy_def dummyFunction_def Let_def newFunc_def ALIGN_def)

lemma randomizeCode_dummy:
  assumes F: "\<exists>F \<in> set (function_list m). fn_id F = f" and lt: "f < next_handle m"
    and r: "randomizeCode addr f m = Some (args, m')"
  shows "\<exists>pre F post. function_list m' = pre @ F # dummyFunction (next_handle m) (getName m f) # post
           \<and> fn_id F = f"
proof -
  let ?S = "dummyFunction (next_handle m) (getName m f)"
  let ?K = "{next_handle m}"
  obtain pre F0 post where s: "fn_id F0 = f"
    "function_list (snd (createDummy f m)) = pre @ F0 # ?S # post"
    using insertAfter_split [OF F, of ?S] by (auto simp: createDummy_function_list)
  have b: "below ?K (snd (createDummy f m))"
    by (simp add: below_def createDummy_function_list)
  have "evolves ?K {f} (snd (createDummy f m)) m'"
    using b _ r by (rule evolves_randomizeCode_after) (use lt in simp)
  then have "evolve ?K {f} (next_handle (snd (createDummy f m)))
               (function_list (snd (createDummy f m))) (function_list m')"
    by (simp add: evolves_def)
  from evolve_adjacent [OF this s(2)] s(1)
  show ?thesis by (simp add: dummyFunction_def)
qed

lemma isDataPCRelative_evolves: "evolves K A m m' \<Longrightarrow> isDataPCRelative m' = isDataPCRelative m"
  by (simp add: evolves_def isDataPCRelative_def getPlatform_def)

lemma prepareCode_loadGlobalModule32:
  "prepareCode 1 loadGlobalModule32 =
     Some (5, loadGlobalPrepared\<lparr>target_triple := ''i686-pc-linux-gnu'', pointer_size := 4\<rparr>)"
  by (simp add: loadGlobalModule32_def loadGlobalModule_def loadGlobalPrepared_def eval_defs)

section \<open>Steps of the other sub-passes\<close>

lemma evolves_Intrinsic_getDeclaration:
  "n \<noteq> ''main'' \<Longrightarrow> evolves K A m (snd (Intrinsic_getDeclaration n t m))"
  by (cases "getFunction m n") (simp_all add: Intrinsic_getDeclaration_def evolves_Function_Create)

lemma evolves_then_createBefore:
  "evolves K A m m1 \<Longrightarrow> f \<notin> K \<Longrightarrow> evolves K A m (snd (createBefore f p opc t ops m1))"
  by (blast intro: evolves_trans evolves_createBefore)

lemma evolves_padCall: "f \<notin> K \<Longrightarrow> evolves K A m (padCall f pad ss sr c m)"
  unfolding padCall_def Let_def case_prod_beta
  by (intro evolves_then_createBefore evolves_refl)

lemma evolves_randomizeStack: "f \<notin> K \<Longrightarrow> evolves K A m (randomizeStack f pad m)"
proof -
  assume f: "f \<notin> K"
  let ?m1 = "snd (Intrinsic_getDeclaration ''llvm.stacksave'' (FunctionTy PointerTy []) m)"
  let ?m2 = "snd (Intrinsic_getDeclaration ''llvm.stackrestore'' (FunctionTy VoidTy [PointerTy]) ?m1)"
  have 1: "evolves K A m ?m1" by (rule evolves_Intrinsic_getDeclaration) simp
  have 2: "evolves K A ?m1 ?m2" by (rule evolves_Intrinsic_getDeclaration) simp
  have 3: "evolves K A ?m2 (fold (padCall f pad ss sr) cs ?m2)" for ss sr cs
    by (rule evolves_fold) (rule evolves_padCall [OF f])
  show ?thesis
    unfolding randomizeStack_def Let_def case_prod_beta
    using 1 2 3 by (blast intro: evolves_trans)
qed

lemma evolves_stackStep: "f \<notin> K \<Longrightarrow> evolves K A (snd st) (snd (stackStep f st))"
  unfolding stackStep_def Let_def case_prod_beta snd_conv
  by (rule evolves_trans [OF evolves_GlobalVariable_new evolves_randomizeStack])

lemma evolves_declareRuntimeFunctions:
  assumes "below K m"
  shows "evolves K A m (snd (declareRuntimeFunctions m))"
proof -
  have step: "evolves K A x (addFnAttr (next_handle x) a (snd (Function_Create t l n x)))"
    if "below K x" "n \<noteq> ''main''" for x a t l n
  proof -
    have "next_handle x \<notin> K" using that(1) by (auto simp: below_def)
    then show ?thesis
      using that(2) by (blast intro: evolves_trans evolves_Function_Create evolves_addFnAttr)
  qed
  let ?m2 = "addFnAttr (next_handle m) NonLazyBind
     (snd (Function_Create (FunctionTy VoidTy [PointerTy, PointerTy, PointerTy, IntegerTy 32, IntegerTy 1, PointerTy])
        ExternalLinkage ''stabilizer_register_function'' m))"
  let ?m4 = "addFnAttr (next_handle ?m2) NonLazyBind
     (snd (Function_Create (FunctionTy VoidTy [PointerTy]) ExternalLinkage
        ''stabilizer_register_constructor'' ?m2))"
  let ?m6 = "addFnAttr (next_handle ?m4) NonLazyBind
     (snd (Function_Create (FunctionTy VoidTy [PointerTy]) ExternalLinkage
        ''stabilizer_register_stack_pad'' ?m4))"
  have e: "snd (declareRuntimeFunctions m) = ?m6"
    by (simp add: declareRuntimeFunctions_def Let_def case_prod_beta)
  have 1: "evolves K A m ?m2" using assms by (intro step) simp_all
  then have b2: "below K ?m2" using assms by (blast intro: below_evolves)
  then have 2: "evolves K A ?m2 ?m4" by (intro step) simp_all
  then have "below K ?m4" using b2 by (blast intro: below_evolves)
  then have 3: "evolves K A ?m4 ?m6" by (intro step) simp_all
  show ?thesis unfolding e using 1 2 3 by (blast intro: evolves_trans)
qed

lemma evolves_then_updateGlobal:
  "evolves K A m m1 \<Longrightarrow> evolves K A m (updateGlobal h g m1)"
  by (blast intro: evolves_trans evolves_updateGlobal)

lemma evolves_then_eraseGlobal:
  "evolves K A m m1 \<Longrightarrow> evolves K A m (eraseGlobal h m1)"
  by (blast intro: evolves_trans evolves_eraseGlobal)

lemma evolves_makeConstructor:
  assumes "n \<noteq> ''main''"
  shows "evolves K A m (snd (makeConstructor n m))"
proof -
  let ?m1 = "snd (Function_Create (FunctionTy VoidTy []) InternalLinkage n m)"
  have 1: "evolves K A m ?m1" using assms by (rule evolves_Function_Create)
  have 2: "evolves K A m (snd (GlobalVariable_new t c l i nm ?m1))" for t c l i nm
    using 1 evolves_GlobalVariable_new by (blast intro: evolves_trans)
  show ?thesis
    unfolding makeConstructor_def Let_def case_prod_beta
    by (auto split: option.splits intro!: evolves_then_updateGlobal evolves_then_eraseGlobal 2)
qed

lemma evolves_codeStep:
  assumes "below K m" "f \<notin> K" "f \<notin> A" "ctor \<notin> K"
    and "codeStep addr rt ctor ctor_bb stackPads f m = Some m'"
  shows "evolves K A m m'"
proof -
  obtain args m1 where r: "randomizeCode addr f m = Some (args, m1)"
    using assms(5) by (auto simp: codeStep_def split: option.splits)
  have "evolves K A m m1" using assms(1-3) r by (rule evolves_randomizeCode)
  moreover have "evolves K A m1 m'"
    using assms(4,5) r by (auto simp: codeStep_def Let_def intro: evolves_createAtEnd)
  ultimately show ?thesis by (blast intro: evolves_trans)
qed

lemma evolves_registerCtor: "ctor \<notin> K \<Longrightarrow> evolves K A m (registerCtor rt ctor ctor_bb c m)"
  by (simp add: registerCtor_def evolves_createAtEnd)

lemma evolves_registerPad: "ctor \<notin> K \<Longrightarrow> evolves K A m (registerPad rt ctor ctor_bb fp m)"
  by (simp add: registerPad_def evolves_createAtEnd)

section \<open>The heap sub-pass as a step\<close>

lemma declsOnly_evolves:
  "declsOnly K m \<Longrightarrow> below K m \<Longrightarrow> evolves K A m m' \<Longrightarrow> declsOnly K m'"
  unfolding declsOnly_def evolves_def below_def
  by (metis evolve_protected_back)

lemma evolves_replaceAllUsesWith:
  assumes "declsOnly K m"
  shows "evolves K A m (replaceAllUsesWith old new m)"
proof -
  let ?g = "\<lambda>f. f\<lparr>fn_blocks :=
                mapInsts (\<lambda>x. x\<lparr>inst_operands := map (substValue old new) (inst_operands x)\<rparr>)
                  (fn_blocks f)\<rparr>"
  have "evolve K A (next_handle m) (function_list m) (map ?g (function_list m))"
  proof (rule evolve_update [OF evolve_refl])
    show "\<forall>x. fn_id (?g x) = fn_id x \<and> fn_name (?g x) = fn_name x" by simp
    show "\<forall>x \<in> set (function_list m). fn_id x \<in> K \<longrightarrow> ?g x = x"
      using assms by (auto simp: declsOnly_def mapInsts_def)
  qed
  moreover have "map fn_id (map ?g (function_list m)) = map fn_id (function_list m)"
    by simp
  ultimately show ?thesis
    by (auto simp: evolves_def replaceAllUsesWith_def wfHandles_def simp del: map_map)
qed

lemma evolves_replaceHeapFunction:
  assumes "declsOnly K m" "below K m" "n \<noteq> ''main''"
  shows "evolves K A m (replaceHeapFunction fn n m)"
proof (cases fn)
  case None
  then show ?thesis by (simp add: replaceHeapFunction_def)
next
  case (Some h)
  let ?m1 = "snd (Function_Create (getFunctionType m h) ExternalLinkage n m)"
  have 1: "evolves K A m ?m1" using assms(3) by (rule evolves_Function_Create)
  then have "declsOnly K ?m1" using assms(1,2) by (blast intro: declsOnly_evolves)
  then have "evolves K A ?m1 (replaceAllUsesWith (Function h) (Function (next_handle m)) ?m1)"
    by (rule evolves_replaceAllUsesWith)
  then show ?thesis
    using 1 Some by (auto simp: replaceHeapFunction_def Let_def case_prod_beta intro: evolves_trans)
qed

lemma evolves_randomizeHeap:
  assumes "declsOnly K m" "below K m"
  shows "evolves K A m (randomizeHeap m)"
proof -
  have step: "evolves K A m (replaceHeapFunction fn n x)"
    if "evolves K A m x" "n \<noteq> ''main''" for fn n x
  proof -
    have "declsOnly K x" "below K x"
      using assms that(1) by (blast intro: declsOnly_evolves below_evolves)+
    then have "evolves K A x (replaceHeapFunction fn n x)"
      using that(2) by (rule evolves_replaceHeapFunction)
    then show ?thesis using that(1) by (blast intro: evolves_trans)
  qed
  show ?thesis
    unfolding randomizeHeap_def Let_def
    by (intro step evolves_refl) simp_all
qed

section \<open>The stages of the pass\<close>

lemma codeStep_total: "codeStep addr rt ctor ctor_bb stackPads f m \<noteq> None"
  using randomizeCode_total [of addr f m] by (auto simp: codeStep_def)

lemma runOnModule_total: "\<exists>m'. runOnModule opts addr m = Some m'"
proof -
  define m1 where "m1 = (if stabilize_heap opts then randomizeHeap m else m)"
  obtain rt m2 where 2: "declareRuntimeFunctions m1 = (rt, m2)" by fastforce
  obtain pads m3 where 3: "(if stabilize_stack opts then fold stackStep (localFunctions m1) ([], m2)
      else ([], m2)) = (pads, m3)" by fastforce
  obtain ctor m4 where 4: "makeConstructor ''stabilizer.module_ctor'' m3 = (ctor, m4)" by fastforce
  obtain bb m5 where 5: "BasicBlock_Create ctor m4 = (bb, m5)" by fastforce
  have "foldM (codeStep addr rt ctor bb pads) (localFunctions m1) m5 \<noteq> None"
    by (rule foldM_total) (rule codeStep_total)
  then obtain m6 where 6: "(if stabilize_code opts
      then foldM (codeStep addr rt ctor bb pads) (localFunctions m1) m5 else Some m5) = Some m6"
    by (cases "stabilize_code opts") auto
  show ?thesis
    unfolding runOnModule_def Let_def m1_def [symmetric]
    unfolding 2 prod.case 3 4 5 6 option.case
    by simp
qed

text \<open>The module before the last step, the renaming of \<^verbatim>\<open>main\<close>.\<close>

lemma runOnModule_stages:
  assumes "runOnModule opts addr m = Some m'"
  obtains m1 rt m2 pads m3 ctor m4 bb m5 m6 m9 where
    "m1 = (if stabilize_heap opts then randomizeHeap m else m)"
    "declareRuntimeFunctions m1 = (rt, m2)"
    "(if stabilize_stack opts then fold stackStep (localFunctions m1) ([], m2) else ([], m2)) = (pads, m3)"
    "makeConstructor ''stabilizer.module_ctor'' m3 = (ctor, m4)"
    "BasicBlock_Create ctor m4 = (bb, m5)"
    "(if stabilize_code opts then foldM (codeStep addr rt ctor bb pads) (localFunctions m1) m5
      else Some m5) = Some m6"
    "m9 = snd (createAtEnd ctor bb Ret VoidTy []
            (if stabilize_stack opts \<and> \<not> stabilize_code opts
             then fold (registerPad rt ctor bb) pads (fold (registerCtor rt ctor bb) (getConstructors m3) m6)
             else fold (registerCtor rt ctor bb) (getConstructors m3) m6))"
    "m' = renameMain m9"
proof -
  define m1 where "m1 = (if stabilize_heap opts then randomizeHeap m else m)"
  obtain rt m2 where 2: "declareRuntimeFunctions m1 = (rt, m2)" by fastforce
  obtain pads m3 where 3: "(if stabilize_stack opts then fold stackStep (localFunctions m1) ([], m2)
      else ([], m2)) = (pads, m3)" by fastforce
  obtain ctor m4 where 4: "makeConstructor ''stabilizer.module_ctor'' m3 = (ctor, m4)" by fastforce
  obtain bb m5 where 5: "BasicBlock_Create ctor m4 = (bb, m5)" by fastforce
  have "foldM (codeStep addr rt ctor bb pads) (localFunctions m1) m5 \<noteq> None"
    by (rule foldM_total) (rule codeStep_total)
  then obtain m6 where 6: "(if stabilize_code opts
      then foldM (codeStep addr rt ctor bb pads) (localFunctions m1) m5 else Some m5) = Some m6"
    by (cases "stabilize_code opts") auto
  have "runOnModule opts addr m = Some (renameMain (snd (createAtEnd ctor bb Ret VoidTy []
            (if stabilize_stack opts \<and> \<not> stabilize_code opts
             then fold (registerPad rt ctor bb) pads (fold (registerCtor rt ctor bb) (getConstructors m3) m6)
             else fold (registerCtor rt ctor bb) (getConstructors m3) m6))))"
    unfolding runOnModule_def Let_def m1_def [symmetric]
    unfolding 2 prod.case 3 4 5 6 option.case
    by (rule refl)
  with assms show thesis
    using that [OF m1_def 2 3 4 5 6 refl] by simp
qed

lemma set_localFunctions:
  "set (localFunctions m) = fn_id ` {x \<in> set (function_list m). isLocalFunction x}"
proof -
  have "set (fold (\<lambda>f s. if isLocalFunction f then set_insert (<) (fn_id f) s else s) xs acc)
        = set acc \<union> fn_id ` {x \<in> set xs. isLocalFunction x}" for xs acc
    by (induction xs arbitrary: acc) auto
  then show ?thesis by (simp add: localFunctions_def)
qed

lemma distinct_localFunctions: "distinct (localFunctions m)"
proof -
  have "distinct (fold (\<lambda>f s. if isLocalFunction f then set_insert (<) (fn_id f) s else s) xs acc)
        \<and> sorted (fold (\<lambda>f s. if isLocalFunction f then set_insert (<) (fn_id f) s else s) xs acc)"
    if "distinct acc" "sorted acc" for xs and acc :: "nat list"
    using that
  proof (induction xs arbitrary: acc)
    case Nil
    then show ?case by simp
  next
    case (Cons x xs)
    have "distinct (set_insert (<) (fn_id x) acc)"
      using set_insert_distinct [of acc "\<lambda>x. x" "fn_id x"] Cons.prems by simp
    moreover have "sorted (set_insert (<) (fn_id x) acc)"
      using set_insert_sorted [of "\<lambda>x. x" acc "fn_id x"] Cons.prems by simp
    ultimately show ?case using Cons by simp
  qed
  then show ?thesis by (simp add: localFunctions_def)
qed

lemma localFunctions_not_protected:
  "declsOnly K m \<Longrightarrow> f \<in> set (localFunctions m) \<Longrightarrow> f \<notin> K"
  by (auto simp: set_localFunctions declsOnly_def isLocalFunction_def isDeclaration_def)

lemma fst_makeConstructor: "fst (makeConstructor n m) = next_handle m"
  by (simp add: makeConstructor_def Let_def case_prod_beta Function_Create_def split: option.splits)

text \<open>
  The whole pass, up to the renaming of \<^verbatim>\<open>main\<close>, is a sequence of steps that leave
  the protected declarations alone.
\<close>

lemma runOnModule_evolves:
  assumes run: "runOnModule opts addr m = Some m'" and b: "below K m" and d: "declsOnly K m"
  obtains m9 where "m' = renameMain m9" "evolves K {} m m9"
proof -
  from run obtain m1 rt m2 pads m3 ctor m4 bb m5 m6 m9 where
    s1: "m1 = (if stabilize_heap opts then randomizeHeap m else m)" and
    s2: "declareRuntimeFunctions m1 = (rt, m2)" and
    s3: "(if stabilize_stack opts then fold stackStep (localFunctions m1) ([], m2) else ([], m2)) = (pads, m3)" and
    s4: "makeConstructor ''stabilizer.module_ctor'' m3 = (ctor, m4)" and
    s5: "BasicBlock_Create ctor m4 = (bb, m5)" and
    s6: "(if stabilize_code opts then foldM (codeStep addr rt ctor bb pads) (localFunctions m1) m5
      else Some m5) = Some m6" and
    s9: "m9 = snd (createAtEnd ctor bb Ret VoidTy []
            (if stabilize_stack opts \<and> \<not> stabilize_code opts
             then fold (registerPad rt ctor bb) pads (fold (registerCtor rt ctor bb) (getConstructors m3) m6)
             else fold (registerCtor rt ctor bb) (getConstructors m3) m6))" and
    s10: "m' = renameMain m9"
    by (rule runOnModule_stages)
  have e1: "evolves K {} m m1"
    using evolves_randomizeHeap [OF d b] by (simp add: s1)
  have b1: "below K m1" and d1: "declsOnly K m1"
    using e1 b d by (blast intro: below_evolves declsOnly_evolves)+
  have loc: "f \<notin> K" if "f \<in> set (localFunctions m1)" for f
    using d1 that by (rule localFunctions_not_protected)
  have e2: "evolves K {} m1 m2"
    using evolves_declareRuntimeFunctions [OF b1, of "{}"] by (simp add: s2)
  have st: "evolves K {} m2 (snd (fold stackStep xs (ps, m2)))" if "set xs \<subseteq> set (localFunctions m1)" for xs ps
    using that
  proof (induction xs rule: rev_induct)
    case Nil
    then show ?case by simp
  next
    case (snoc x xs)
    have "evolves K {} (snd (fold stackStep xs (ps, m2))) (snd (stackStep x (fold stackStep xs (ps, m2))))"
      using snoc.prems loc by (intro evolves_stackStep) auto
    then show ?case using snoc by (auto intro: evolves_trans)
  qed
  have e3: "evolves K {} m2 m3"
  proof (cases "stabilize_stack opts")
    case True
    then show ?thesis using st [of "localFunctions m1" "[]"] s3 by simp
  next
    case False
    then show ?thesis using s3 by simp
  qed
  have e4: "evolves K {} m3 m4"
    using evolves_makeConstructor [of "''stabilizer.module_ctor''" K "{}" m3] by (simp add: s4)
  have b3: "below K m3"
    by (rule below_evolves [OF below_evolves [OF b1 e2] e3])
  have ctor: "ctor = next_handle m3"
    using fst_makeConstructor [of "''stabilizer.module_ctor''" m3] by (simp add: s4)
  then have ck: "ctor \<notin> K" using b3 by (auto simp: below_def)
  have e5: "evolves K {} m4 m5"
    using evolves_BasicBlock_Create [OF ck, of "{}" m4] by (simp add: s5)
  have b5: "below K m5"
    by (rule below_evolves [OF below_evolves [OF b3 e4] e5])
  have e6: "evolves K {} m5 m6"
  proof (cases "stabilize_code opts")
    case True
    then have "foldM (codeStep addr rt ctor bb pads) (localFunctions m1) m5 = Some m6"
      using s6 by simp
    then show ?thesis
    proof (rule evolves_foldM)
      fix x s s'
      assume "x \<in> set (localFunctions m1)" "evolves K {} m5 s"
        "codeStep addr rt ctor bb pads x s = Some s'"
      then have "below K s" "x \<notin> K" "x \<notin> {}"
        using b5 loc by (blast intro: below_evolves)+
      then show "evolves K {} s s'"
        using ck \<open>codeStep addr rt ctor bb pads x s = Some s'\<close> by (rule evolves_codeStep)
    qed
  next
    case False
    then show ?thesis using s6 by simp
  qed
  let ?m7 = "fold (registerCtor rt ctor bb) (getConstructors m3) m6"
  have e7: "evolves K {} m6 ?m7"
    by (rule evolves_fold) (rule evolves_registerCtor [OF ck])
  let ?m8 = "if stabilize_stack opts \<and> \<not> stabilize_code opts
             then fold (registerPad rt ctor bb) pads ?m7 else ?m7"
  have "evolves K {} ?m7 (fold (registerPad rt ctor bb) pads ?m7)"
    by (rule evolves_fold) (rule evolves_registerPad [OF ck])
  then have e8: "evolves K {} ?m7 ?m8"
    by simp
  have e9: "evolves K {} ?m8 m9"
    unfolding s9 by (rule evolves_createAtEnd [OF ck])
  have "evolves K {} m m9"
    by (rule evolves_trans [OF e1 evolves_trans [OF e2 evolves_trans [OF e3 evolves_trans [OF e4
          evolves_trans [OF e5 evolves_trans [OF e6 evolves_trans [OF e7 evolves_trans [OF e8 e9]]]]]]]])
  then show thesis using s10 that by blast
qed

section \<open>The registration arguments\<close>

lemma rewriteUse_global_list [simp]:
  "global_list (rewriteUse f T A k u m) = global_list m"
  by (simp add: rewriteUse_def createBefore_def newInst_def updateBlocks_def updateFunction_def
      Let_def split: option.splits)

lemma fold_rewriteUse_global_list [simp]:
  "global_list (fold (rewriteUse f T A k) us m) = global_list m"
  by (induction us arbitrary: m) simp_all

lemma fold_rewriteConstant_global_list [simp]:
  "global_list (snd (fold (rewriteConstant f T A refs) cs st)) = global_list (snd st)"
  by (induction cs arbitrary: st) (simp_all add: rewriteConstant_def)

lemma rewriteUses_global_list [simp]:
  "global_list (rewriteUses f T A refs cs m) = global_list m"
  by (simp add: rewriteUses_def)

section \<open>Global references after code randomization\<close>




text \<open>
  Claim C4. \<^verbatim>\<open>randomizeCode\<close> returns, for every function \<open>f\<close>, five
  arguments: \<open>f\<close> cast to a byte pointer, the dummy function cast to a byte pointer, a
  table pointer, a table size and a one-bit flag. The dummy function has the handle that
  was the next one of the module; when \<open>f\<close> is a function of the module, the function
  list of the result holds, right after \<open>f\<close>, the dummy function
  \<^verbatim>\<open>stabilizer.dummy.\<close>\<open>f\<close> with that handle. Writing \<open>m4\<close> for the module after the
  float operations are extracted and taking the uses collected by
  \<^verbatim>\<open>findPCRelativeUsesIn\<close> there: the flag is 1 exactly when the target of the module
  uses PC-relative data addressing and the collection is not empty; for an empty
  collection the table pointer is null and the size is the 32-bit 0; otherwise the table
  pointer is the cast of the global variable \<^verbatim>\<open>f.relocation_table\<close> of the result and
  the size is the size of that variable's type cast to 32 bits.
\<close>

theorem registration_tuple:
  "\<exists>args m' m4 table size.
     randomizeCode addr f m = Some (args, m') \<and>
     prepareCode f m = Some (fst (createDummy f m), m4) \<and>
     fst (createDummy f m) = next_handle m \<and>
     args = [Const (getPointerCast (Function f) PointerTy),
             Const (getPointerCast (Function (next_handle m)) PointerTy),
             Const table, Const size,
             Const (ConstantInt 1
               (if isDataPCRelative m \<and> findPCRelativeUsesIn addr m4 f \<noteq> [] then 1 else 0))] \<and>
     ((\<exists>F \<in> set (function_list m). fn_id F = f) \<and> f < next_handle m \<longrightarrow>
        (\<exists>pre F post.
           function_list m' = pre @ F # dummyFunction (next_handle m) (getName m f) # post \<and>
           fn_id F = f)) \<and>
     (findPCRelativeUsesIn addr m4 f = [] \<longrightarrow>
        table = ConstantPointerNull \<and> size = ConstantInt 32 0) \<and>
     (findPCRelativeUsesIn addr m4 f \<noteq> [] \<longrightarrow>
        (\<exists>g \<in> set (global_list m').
           gv_name g = getName m4 f @ ''.relocation_table'' \<and>
           table = getPointerCast (GlobalVariable (gv_id g)) PointerTy \<and>
           size = getIntegerCast (getSizeOf (gv_type g)) (IntegerTy 32)))"
proof -
  obtain m4 where p: "prepareCode f m = Some (fst (createDummy f m), m4)"
    using prepareCode_total by blast
  obtain args m' where r: "rewriteCode addr f (fst (createDummy f m)) m4 = (args, m')"
    by (cases "rewriteCode addr f (fst (createDummy f m)) m4")
  have rc: "randomizeCode addr f m = Some (args, m')"
    using p r by (simp add: randomizeCode_def)
  have d: "fst (createDummy f m) = next_handle m"
    by (simp add: createDummy_function_list)
  have "evolves {} {} m m'"
    using _ _ _ rc by (rule evolves_randomizeCode) (simp_all add: below_def)
  then have t: "isDataPCRelative m' = isDataPCRelative m"
    by (rule isDataPCRelative_evolves)
  have s: "(\<exists>F \<in> set (function_list m). fn_id F = f) \<and> f < next_handle m \<longrightarrow>
        (\<exists>pre F post.
           function_list m' = pre @ F # dummyFunction (next_handle m) (getName m f) # post \<and>
           fn_id F = f)"
    using randomizeCode_dummy [OF _ _ rc] by blast
  show ?thesis
  proof (cases "findPCRelativeUsesIn addr m4 f = []")
    case True
    then show ?thesis
      using p r rc s d by (simp add: rewriteCode_def Let_def APInt_def)
  next
    case False
    have "\<exists>table size.
       args = [Const (getPointerCast (Function f) PointerTy),
             Const (getPointerCast (Function (next_handle m)) PointerTy),
             Const table, Const size,
             Const (ConstantInt 1 (if isDataPCRelative m then 1 else 0))] \<and>
        (\<exists>g \<in> set (global_list m').
           gv_name g = getName m4 f @ ''.relocation_table'' \<and>
           table = getPointerCast (GlobalVariable (gv_id g)) PointerTy \<and>
           size = getIntegerCast (getSizeOf (gv_type g)) (IntegerTy 32))"
      using False r d t [symmetric]
      by (auto simp: rewriteCode_def Let_def GlobalVariable_new_def APInt_def split: prod.splits)
    then show ?thesis
      using False p rc s d by auto
  qed
qed

theorem registration_tuple_witness:
  "(\<exists>args m' m4.
     randomizeCode exampleAddr 1 loadGlobalModule = Some (args, m') \<and>
     prepareCode 1 loadGlobalModule = Some (5, m4) \<and>
     findPCRelativeUsesIn exampleAddr m4 1 \<noteq> [] \<and> isDataPCRelative loadGlobalModule \<and>
     args ! 0 = Const (Function 1) \<and> args ! 1 = Const (Function 5) \<and>
     args ! 4 = Const (ConstantInt 1 1) \<and>
     (\<exists>pre F post. function_list m' = pre @ F # dummyFunction 5 ''h'' # post \<and> fn_id F = 1)) \<and>
   (\<exists>args m' m4.
     randomizeCode exampleAddr 1 loadGlobalModule32 = Some (args, m') \<and>
     prepareCode 1 loadGlobalModule32 = Some (5, m4) \<and>
     findPCRelativeUsesIn exampleAddr m4 1 \<noteq> [] \<and> \<not> isDataPCRelative loadGlobalModule32 \<and>
     args ! 4 = Const (ConstantInt 1 0) \<and>
     (\<exists>pre F post. function_list m' = pre @ F # dummyFunction 5 ''h'' # post \<and> fn_id F = 1))"
proof -
  have w: "\<exists>args m' m4.
     randomizeCode exampleAddr 1 M = Some (args, m') \<and>
     prepareCode 1 M = Some (5, m4) \<and>
     findPCRelativeUsesIn exampleAddr m4 1 \<noteq> [] \<and>
     args ! 0 = Const (Function 1) \<and> args ! 1 = Const (Function 5) \<and>
     args ! 4 = Const (ConstantInt 1 (if isDataPCRelative M then 1 else 0)) \<and>
     (\<exists>pre F post. function_list m' = pre @ F # dummyFunction 5 ''h'' # post \<and> fn_id F = 1)"
    if pm: "prepareCode 1 M = Some (5, P)" and ne: "findPCRelativeUsesIn exampleAddr P 1 \<noteq> []"
      and F: "\<exists>F \<in> set (function_list M). fn_id F = 1" and nh: "next_handle M = 5"
      and nm: "getName M 1 = ''h''"
    for M P
  proof -
    obtain args m' m4 table size where
      rc: "randomizeCode exampleAddr 1 M = Some (args, m')" and
      p: "prepareCode 1 M = Some (fst (createDummy 1 M), m4)" and
      a: "args = [Const (getPointerCast (Function 1) PointerTy),
             Const (getPointerCast (Function (next_handle M)) PointerTy),
             Const table, Const size,
             Const (ConstantInt 1
               (if isDataPCRelative M \<and> findPCRelativeUsesIn exampleAddr m4 1 \<noteq> [] then 1 else 0))]" and
      s: "(\<exists>F \<in> set (function_list M). fn_id F = 1) \<and> 1 < next_handle M \<longrightarrow>
        (\<exists>pre F post.
           function_list m' = pre @ F # dummyFunction (next_handle M) (getName M 1) # post \<and>
           fn_id F = 1)"
      using registration_tuple [of exampleAddr 1 M] by blast
    have m4: "m4 = P" using p pm by simp
    show ?thesis
      using rc pm ne a s F nh nm unfolding m4 by (simp add: getPointerCast_def)
  qed
  have ne: "findPCRelativeUsesIn exampleAddr loadGlobalPrepared 1 \<noteq> []"
    by (simp add: loadGlobalPrepared_def eval_defs)
  have ne32: "findPCRelativeUsesIn exampleAddr
      (loadGlobalPrepared\<lparr>target_triple := ''i686-pc-linux-gnu'', pointer_size := 4\<rparr>) 1 \<noteq> []"
    by (simp add: loadGlobalPrepared_def eval_defs)
  have pc: "isDataPCRelative loadGlobalModule"
    by (simp add: loadGlobalModule_def eval_defs)
  have pc32: "\<not> isDataPCRelative loadGlobalModule32"
    by (simp add: loadGlobalModule32_def loadGlobalModule_def eval_defs)
  have 1: "\<exists>F \<in> set (function_list loadGlobalModule). fn_id F = 1" "next_handle loadGlobalModule = 5"
    "getName loadGlobalModule 1 = ''h''"
    by (simp_all add: loadGlobalModule_def eval_defs)
  have 2: "\<exists>F \<in> set (function_list loadGlobalModule32). fn_id F = 1" "next_handle loadGlobalModule32 = 5"
    "getName loadGlobalModule32 1 = ''h''"
    by (simp_all add: loadGlobalModule32_def loadGlobalModule_def eval_defs)
  have a: "\<exists>args m' m4.
     randomizeCode exampleAddr 1 loadGlobalModule = Some (args, m') \<and>
     prepareCode 1 loadGlobalModule = Some (5, m4) \<and>
     findPCRelativeUsesIn exampleAddr m4 1 \<noteq> [] \<and> isDataPCRelative loadGlobalModule \<and>
     args ! 0 = Const (Function 1) \<and> args ! 1 = Const (Function 5) \<and>
     args ! 4 = Const (ConstantInt 1 1) \<and>
     (\<exists>pre F post. function_list m' = pre @ F # dummyFunction 5 ''h'' # post \<and> fn_id F = 1)"
    using w [OF prepareCode_loadGlobalModule ne 1] pc by simp
  have b: "\<exists>args m' m4.
     randomizeCode exampleAddr 1 loadGlobalModule32 = Some (args, m') \<and>
     prepareCode 1 loadGlobalModule32 = Some (5, m4) \<and>
     findPCRelativeUsesIn exampleAddr m4 1 \<noteq> [] \<and> \<not> isDataPCRelative loadGlobalModule32 \<and>
     args ! 4 = Const (ConstantInt 1 0) \<and>
     (\<exists>pre F post. function_list m' = pre @ F # dummyFunction 5 ''h'' # post \<and> fn_id F = 1)"
    using w [OF prepareCode_loadGlobalModule32 ne32 2] pc32 by simp blast
  show ?thesis using a b by (rule conjI)
qed

section \<open>The renaming of the entry point\<close>

text \<open>
  Claim C10. Whenever the module has a function named \<^verbatim>\<open>main\<close>, the pass returns a
  module in which no function is named \<^verbatim>\<open>main\<close> and the function with the handle of
  the former \<^verbatim>\<open>main\<close> is named \<^verbatim>\<open>stabilizer_main\<close>. This holds for a declaration
  as well: a declared \<^verbatim>\<open>main\<close> is in the result unchanged except for its name, so
  it is still a declaration. The handles of the functions of the input are distinct and
  allocated, and \<^verbatim>\<open>main\<close> is the only function of that name, as in every LLVM module.
\<close>

theorem main_renamed:
  assumes wf: "wfHandles m"
    and F: "F \<in> set (function_list m)" "fn_name F = ''main''"
    and uniq: "\<forall>G \<in> set (function_list m). fn_name G = ''main'' \<longrightarrow> G = F"
  shows "\<exists>m'. runOnModule opts addr m = Some m' \<and>
           (\<forall>G \<in> set (function_list m'). fn_name G \<noteq> ''main'') \<and>
           (\<exists>G \<in> set (function_list m'). fn_id G = fn_id F \<and> fn_name G = ''stabilizer_main'') \<and>
           (isDeclaration F \<longrightarrow>
              F\<lparr>fn_name := ''stabilizer_main''\<rparr> \<in> set (function_list m') \<and>
              isDeclaration (F\<lparr>fn_name := ''stabilizer_main''\<rparr>))"
proof -
  obtain m' where run: "runOnModule opts addr m = Some m'"
    using runOnModule_total by blast
  define K where "K = (if isDeclaration F then {fn_id F} else {})"
  have b: "below K m"
    using wf F(1) by (auto simp: K_def below_def wfHandles_def)
  have only: "G = F" if "G \<in> set (function_list m)" "fn_id G = fn_id F" for G
    using wf F(1) that by (auto simp: wfHandles_def distinct_map inj_on_def)
  have d: "declsOnly K m"
    using only by (auto simp: K_def declsOnly_def isDeclaration_def)
  from run b d obtain m9 where m9: "m' = renameMain m9" and e: "evolves K {} m m9"
    by (rule runOnModule_evolves)
  have ev: "evolve K {} (next_handle m) (function_list m) (function_list m9)"
    using e by (simp add: evolves_def)
  have mains: "fn_id y = fn_id F" if "y \<in> set (function_list m9)" "fn_name y = ''main''" for y
    using evolve_main_back [OF ev that] uniq by auto
  obtain y where y: "y \<in> set (function_list m9)" "fn_id y = fn_id F" "fn_name y = ''main''"
    using evolve_persist [OF ev F(1)] F(2) by auto
  then have "find (\<lambda>f. fn_name f = ''main'') (function_list m9) \<noteq> None"
    by (auto simp: find_None_iff)
  then obtain z where z: "find (\<lambda>f. fn_name f = ''main'') (function_list m9) = Some z"
    by blast
  then have "z \<in> set (function_list m9)" "fn_name z = ''main''"
    by (auto simp: find_Some_iff)
  then have "fn_id z = fn_id F" by (rule mains)
  then have fl: "function_list m' =
      map (\<lambda>f. if fn_id f = fn_id F then f\<lparr>fn_name := ''stabilizer_main''\<rparr> else f) (function_list m9)"
    using z by (simp add: m9 renameMain_def getFunction_def setName_def updateFunction_def)
  have 1: "\<forall>G \<in> set (function_list m'). fn_name G \<noteq> ''main''"
    using mains by (auto simp: fl)
  have 2: "\<exists>G \<in> set (function_list m'). fn_id G = fn_id F \<and> fn_name G = ''stabilizer_main''"
    using y(1,2) unfolding fl by (intro bexI [of _ "y\<lparr>fn_name := ''stabilizer_main''\<rparr>"]) auto
  have 3: "F\<lparr>fn_name := ''stabilizer_main''\<rparr> \<in> set (function_list m') \<and>
           isDeclaration (F\<lparr>fn_name := ''stabilizer_main''\<rparr>)" if decl: "isDeclaration F"
  proof -
    have "fn_id F \<in> K" using decl by (simp add: K_def)
    then have "F \<in> set (function_list m9)"
      using evolve_protected [OF ev F(1)] by simp
    then have "F\<lparr>fn_name := ''stabilizer_main''\<rparr> \<in> set (function_list m')"
      unfolding fl by (auto simp: image_iff intro!: bexI [of _ F])
    then show ?thesis using decl by (simp add: isDeclaration_def)
  qed
  show ?thesis using run 1 2 3 by blast
qed

theorem main_renamed_witness:
  "wfHandles declaredMainModule \<and>
   (\<exists>m'. runOnModule allOptions exampleAddr declaredMainModule = Some m' \<and>
      (\<forall>G \<in> set (function_list m'). fn_name G \<noteq> ''main'') \<and>
      \<lparr>fn_id = 0, fn_name = ''stabilizer_main'', fn_type = FunctionTy (IntegerTy 32) [],
        fn_linkage = ExternalLinkage, fn_align = 0, fn_attrs = [], fn_blocks = []\<rparr>
        \<in> set (function_list m'))"
proof -
  let ?F = "\<lparr>fn_id = 0, fn_name = ''main'', fn_type = FunctionTy (IntegerTy 32) [],
        fn_linkage = ExternalLinkage, fn_align = 0, fn_attrs = [], fn_blocks = []\<rparr>"
  have wf: "wfHandles declaredMainModule"
    by (simp add: declaredMainModule_def wfHandles_def)
  have F: "?F \<in> set (function_list declaredMainModule)" "fn_name ?F = ''main''"
    by (simp_all add: declaredMainModule_def)
  have uniq: "\<forall>G \<in> set (function_list declaredMainModule). fn_name G = ''main'' \<longrightarrow> G = ?F"
    by (simp add: declaredMainModule_def)
  have decl: "isDeclaration ?F"
    by (simp add: isDeclaration_def)
  have upd: "?F\<lparr>fn_name := ''stabilizer_main''\<rparr> =
      \<lparr>fn_id = 0, fn_name = ''stabilizer_main'', fn_type = FunctionTy (IntegerTy 32) [],
        fn_linkage = ExternalLinkage, fn_align = 0, fn_attrs = [], fn_blocks = []\<rparr>"
    by simp
  show ?thesis
    using main_renamed [OF wf F uniq, of allOptions exampleAddr] wf decl
    unfolding upd by blast
qed

end
